theory Spec2Isabelle
  imports Main "HOL-Library.AList" "HOL-Library.Sublist"
begin

section \<open>The munin exporter: a shallow embedding\<close>

text \<open>
  The program is the latest revision of \<^verbatim>\<open>munin_exporter.go\<close> (the one with the
  \<^verbatim>\<open>sync.WaitGroup\<close> and the fetch-time gauge). Go strings are byte sequences and
  the munin wire protocol is ASCII, so a Go string is a \<^typ>\<open>string\<close>. The
  functions of Go's \<^verbatim>\<open>strings\<close> package are written out for ASCII input.
\<close>

subsection \<open>Helpers from Go's strings package\<close>

definition nl :: char where
  "nl = CHR 0x0A"

text \<open>\<^verbatim>\<open>unicode.IsSpace\<close> on ASCII: tab, line feed, vertical tab, form feed,
  carriage return and space.\<close>

definition isSpace :: "char \<Rightarrow> bool" where
  "isSpace c = (c = CHR '' '' \<or> c = CHR 0x09 \<or> c = CHR 0x0A \<or> c = CHR 0x0B
                \<or> c = CHR 0x0C \<or> c = CHR 0x0D)"

text \<open>\<^verbatim>\<open>strings.Fields\<close>: the maximal runs of non-space characters, in order.
  The first argument is the field being read.\<close>

fun fieldsFrom :: "string \<Rightarrow> string \<Rightarrow> string list" where
  "fieldsFrom w [] = (if w = [] then [] else [w])"
| "fieldsFrom w (c # cs) =
     (if isSpace c then (if w = [] then fieldsFrom [] cs else w # fieldsFrom [] cs)
      else fieldsFrom (w @ [c]) cs)"

definition Fields :: "string \<Rightarrow> string list" where
  "Fields s = fieldsFrom [] s"

text \<open>\<^verbatim>\<open>strings.TrimRight(s, "\n")\<close>: every trailing line feed is removed.\<close>

definition TrimRightNl :: "string \<Rightarrow> string" where
  "TrimRightNl s = rev (dropWhile (\<lambda>c. c = nl) (rev s))"

text \<open>\<^verbatim>\<open>strings.Split(s, ".")\<close>: the pieces between the dots; never empty.\<close>

fun SplitDot :: "string \<Rightarrow> string list" where
  "SplitDot [] = [[]]"
| "SplitDot (c # cs) =
     (if c = CHR ''.'' then [] # SplitDot cs
      else (case SplitDot cs of [] \<Rightarrow> [[c]] | p # ps \<Rightarrow> (c # p) # ps))"

text \<open>\<^verbatim>\<open>strings.Join(parts, " ")\<close>.\<close>

fun JoinSp :: "string list \<Rightarrow> string" where
  "JoinSp [] = []"
| "JoinSp [p] = p"
| "JoinSp (p # q # ps) = p @ '' '' @ JoinSp (q # ps)"

text \<open>\<^verbatim>\<open>strings.Replace(s, old, new, -1)\<close> for a non-empty \<open>old\<close>: the
  non-overlapping occurrences of \<open>old\<close>, from the left, are replaced by \<open>new\<close>.\<close>

function Replace :: "string \<Rightarrow> string \<Rightarrow> string \<Rightarrow> string" where
  "Replace [] old new = []"
| "Replace (c # cs) old new =
     (if old \<noteq> [] \<and> take (length old) (c # cs) = old
      then new @ Replace (drop (length old) (c # cs)) old new
      else c # Replace cs old new)"
  by pat_completeness auto
termination
  by (relation "measure (\<lambda>(s, old, new). length s)") auto

text \<open>\<^verbatim>\<open>strings.ToLower\<close>. An ASCII byte is a rune of its own: the letters A to Z
  move to a to z, every other ASCII byte stays. The other bytes Go decodes as UTF-8 and
  maps rune by rune to lower case: U+0130 (the bytes C4 B0) becomes \<open>i\<close> and U+212A (the
  bytes E2 84 AA) becomes \<open>k\<close>, and these two are the only runes above U+007F with an ASCII
  lower case. For every other rune above U+007F, and for a byte that is not UTF-8, Go
  writes bytes above 0x7F; the model leaves such bytes as they are. The byte C4 or E2 always
  starts a rune, so the model finds the two runes where Go's decoder finds them. The
  model's result is Go's when Go's is ASCII, and holds a byte above 0x7F when Go's does, so
  every comparison with an ASCII word, the only use the program makes of the result, comes
  out as in Go.\<close>

definition lowerChar :: "char \<Rightarrow> char" where
  "lowerChar c =
     (if of_char CHR ''A'' \<le> (of_char c :: nat) \<and> (of_char c :: nat) \<le> of_char CHR ''Z''
      then char_of (of_char c + (32::nat)) else c)"

fun ToLower :: "string \<Rightarrow> string" where
  "ToLower [] = []"
| "ToLower (c # cs) =
     (if c = CHR 0xC4 \<and> take 1 cs = [CHR 0xB0] then CHR ''i'' # ToLower (drop 1 cs)
      else if c = CHR 0xE2 \<and> take 2 cs = [CHR 0x84, CHR 0xAA]
           then CHR ''k'' # ToLower (drop 2 cs)
           else lowerChar c # ToLower cs)"

text \<open>Reading a Go \<^verbatim>\<open>map[string]string\<close>: a missing key reads as the empty
  string.\<close>

definition getStr :: "(string \<times> string) list \<Rightarrow> string \<Rightarrow> string" where
  "getStr m k = (case map_of m k of None \<Rightarrow> [] | Some v \<Rightarrow> v)"

text \<open>The external identifier, as both \<^verbatim>\<open>registerMetrics\<close> and
  \<^verbatim>\<open>fetchMetrics\<close> compute it:
  \<^verbatim>\<open>strings.Replace(graph+"_"+metric, "-", "_", -1)\<close>.\<close>

definition metricName :: "string \<Rightarrow> string \<Rightarrow> string" where
  "metricName graph metric = Replace (graph @ ''_'' @ metric) ''-'' ''_''"

subsection \<open>The agent and the network\<close>

text \<open>
  What the program reads is fixed by a script of the environment. A connection is the list
  of replies the agent will send on it, one for each \<^verbatim>\<open>bufio.Reader\<close> the program
  creates on the connection (the greeting first, then one reply for each command): the
  bytes of the reply, the error a read past these bytes reports, and the time that passes
  until the reply is there. Bytes that a reader has not consumed when the program drops it
  are lost with it. A reply that ends in end-of-stream is the last one of its connection.
  The world is the list of the outcomes of the calls of \<^verbatim>\<open>net.Dial\<close> still to
  come; when it is used up, the agent stays unreachable.
\<close>

datatype io_error = EOF | IOError string

record reply =
  delay :: nat
  bytes :: string
  after :: io_error

type_synonym conn = "reply list"

datatype attempt = DialError string | Dialed conn

text \<open>A \<^verbatim>\<open>bufio.Reader\<close>: the bytes it will still deliver and the error that
  follows them.\<close>

type_synonym reader = "string \<times> io_error"

text \<open>\<^verbatim>\<open>reader.ReadString('\n')\<close>: the bytes up to and including the first line
  feed; without a line feed, the error (the callers drop the partial line).\<close>

definition ReadString :: "reader \<Rightarrow> (io_error + string) \<times> reader" where
  "ReadString r =
     (case r of (b, e) \<Rightarrow>
        if nl \<in> set b
        then (Inr (takeWhile (\<lambda>c. c \<noteq> nl) b @ [nl]), (tl (dropWhile (\<lambda>c. c \<noteq> nl) b), e))
        else (Inl e, ([], e)))"

text \<open>\<^verbatim>\<open>reader.Peek(1)\<close> on a fresh reader: no error when a byte is there.\<close>

definition Peek :: "reader \<Rightarrow> io_error option" where
  "Peek r = (case r of (b, e) \<Rightarrow> if b = [] then Some e else None)"

subsection \<open>Errors, outcomes and the program state\<close>

datatype err =
    DialFailed string
  | ReadFailed io_error
  | UnexpectedLine string
  | ErrorGettingItems string
  | LineUnexpected string

text \<open>A call returns a value and the new state, ends the process
  (\<^verbatim>\<open>os.Exit(1)\<close>), panics, or never returns (the reconnect loop runs for ever).\<close>

datatype ('a, 's) outcome = Return 'a 's | Exit 's | Panic 's | Hang

record Desc =
  fqName :: string
  helpText :: string
  variableLabels :: "string list"
  constLabels :: "(string \<times> string) list"

text \<open>\<^verbatim>\<open>prometheus.GaugeVec\<close>: its description and one value for each list of
  label values that has been set.\<close>

record 'v GaugeVec =
  gaugeDesc :: Desc
  children :: "string list \<rightharpoonup> 'v"

record 'v muninCounter =
  counterDesc :: Desc
  cvalue :: 'v
  currentLabels :: "string list"

record 'v state =
  globalConn :: conn
  hostname :: string
  graphs :: "string list"
  gaugePerMetric :: "string \<rightharpoonup> 'v GaugeVec"
  counterPerMetric :: "string \<rightharpoonup> 'v muninCounter"
  wg :: int
  registered :: "string list"
  world :: "attempt list"
  sent :: "string list"
  now :: nat

text \<open>\<^verbatim>\<open>bufio.NewReader(globalConn)\<close>: the next reply of the connection; a
  closed or used-up connection reports end-of-stream.\<close>

definition NewReader :: "'v state \<Rightarrow> reader \<times> 'v state" where
  "NewReader s =
     (case globalConn s of
        [] \<Rightarrow> (([], EOF), s)
      | r # rs \<Rightarrow>
          ((bytes r, after r),
           s\<lparr>globalConn := (if after r = EOF then [] else rs), now := now s + delay r\<rparr>))"

subsection \<open>Connection manager\<close>

definition banner :: string where
  "banner = ''# munin node at ''"

text \<open>\<^verbatim>\<open>muninBanner.FindStringSubmatch\<close> for the expression
  \<^verbatim>\<open># munin node at (.*)\<close>: the leftmost occurrence of the literal, followed by the
  longest run of characters other than line feed. The result is empty (no match) or the
  whole match and the group.\<close>

fun FindStringSubmatch :: "string \<Rightarrow> string list" where
  "FindStringSubmatch [] = []"
| "FindStringSubmatch (c # cs) =
     (if take (length banner) (c # cs) = banner
      then (let g = takeWhile (\<lambda>x. x \<noteq> nl) (drop (length banner) (c # cs))
            in [banner @ g, g])
      else FindStringSubmatch cs)"

definition connect :: "'v state \<Rightarrow> err option \<times> 'v state" where
  "connect s =
     (case world s of
        [] \<Rightarrow> (Some (DialFailed ''unreachable''), s\<lparr>globalConn := []\<rparr>)
      | DialError e # w \<Rightarrow> (Some (DialFailed e), s\<lparr>globalConn := [], world := w\<rparr>)
      | Dialed c # w \<Rightarrow>
          (case NewReader (s\<lparr>globalConn := c, world := w\<rparr>) of (reader, s1) \<Rightarrow>
             (case ReadString reader of
                (Inl e, _) \<Rightarrow> (Some (ReadFailed e), s1)
              | (Inr head, _) \<Rightarrow>
                  (let matches = FindStringSubmatch head in
                   if length matches \<noteq> 2 then (Some (UnexpectedLine head), s1)
                   else (None, s1\<lparr>hostname := matches ! 1\<rparr>)))))"

text \<open>\<^verbatim>\<open>time.Sleep(retryInterval * time.Second)\<close>, in nanoseconds.\<close>

definition sleepRetry :: "'v state \<Rightarrow> 'v state" where
  "sleepRetry s = s\<lparr>now := now s + 1000000000\<rparr>"

text \<open>The size of what the environment still holds: every dial and every reply counts.
  Each command uses up some of it, which bounds every retry.\<close>

fun attemptSize :: "attempt \<Rightarrow> nat" where
  "attemptSize (DialError e) = 1"
| "attemptSize (Dialed c) = Suc (length c)"

definition worldSize :: "'v state \<Rightarrow> nat" where
  "worldSize s = sum_list (map attemptSize (world s))"

definition envSize :: "'v state \<Rightarrow> nat" where
  "envSize s = length (globalConn s) + worldSize s"

text \<open>Once the world is used up, every further \<^verbatim>\<open>connect\<close> fails and uses
  nothing: the reconnect loop then runs for ever, which is the outcome \<open>Hang\<close>.\<close>

lemma connect_unreachable:
  "world s = [] \<Longrightarrow> fst (connect s) \<noteq> None \<and> world (snd (connect s)) = []"
  by (simp add: connect_def)

lemma ReadString_shorter:
  "ReadString r = (Inr line, r') \<Longrightarrow> length (fst r') < length (fst r)"
proof -
  obtain b e where r: "r = (b, e)" by (cases r)
  assume a: "ReadString r = (Inr line, r')"
  with r have m: "nl \<in> set b" and r': "r' = (tl (dropWhile (\<lambda>c. c \<noteq> nl) b), e)"
    by (auto simp: ReadString_def split: if_splits)
  from m have "0 < length b" by (cases b) auto
  moreover have "length (dropWhile (\<lambda>c. c \<noteq> nl) b) \<le> length b"
    by (rule length_dropWhile_le)
  ultimately have "length (dropWhile (\<lambda>c. c \<noteq> nl) b) - 1 < length b" by linarith
  then show ?thesis using r r' by simp
qed

lemma NewReader_envSize: "NewReader s = (r, s') \<Longrightarrow> envSize s' \<le> envSize s"
  by (auto simp: NewReader_def envSize_def worldSize_def split: list.splits if_splits)

lemma NewReader_world: "NewReader s = (r, s') \<Longrightarrow> world s' = world s"
  by (auto simp: NewReader_def split: list.splits if_splits)

lemma NewReader_Peek:
  "NewReader s = (r, s') \<Longrightarrow> Peek r = None \<Longrightarrow> envSize s' < envSize s"
  by (auto simp: NewReader_def envSize_def worldSize_def Peek_def split: list.splits if_splits)

lemma connect_ok_envSize:
  "connect s = (None, s') \<Longrightarrow> envSize s' < worldSize s"
  by (auto simp: connect_def envSize_def worldSize_def NewReader_def ReadString_def Let_def
      split: list.splits attempt.splits prod.splits sum.splits if_splits)

lemma connect_fail_worldSize:
  "world s \<noteq> [] \<Longrightarrow> connect s = (Some e, s') \<Longrightarrow> worldSize s' < worldSize s"
  by (auto simp: connect_def envSize_def worldSize_def NewReader_def ReadString_def Let_def
      split: list.splits attempt.splits prod.splits sum.splits if_splits)

lemma worldSize_sleepRetry [simp]: "worldSize (sleepRetry s) = worldSize s"
  by (simp add: worldSize_def sleepRetry_def)

text \<open>The loop of \<^verbatim>\<open>muninCommand\<close>:
  \<^verbatim>\<open>for { err = connect(); if err == nil { break }; time.Sleep(...) }\<close>.\<close>

function reconnectLoop :: "'v state \<Rightarrow> (unit, 'v state) outcome" where
  "reconnectLoop s =
     (if world s = [] then Hang
      else (case connect s of
              (None, s1) \<Rightarrow> Return () s1
            | (Some e, s1) \<Rightarrow> reconnectLoop (sleepRetry s1)))"
  by pat_completeness auto
termination
  by (relation "measure worldSize") (auto dest: connect_fail_worldSize [OF _ sym])

declare reconnectLoop.simps [simp del]

lemma reconnectLoop_envSize:
  "reconnectLoop s = Return u s' \<Longrightarrow> envSize s' < worldSize s"
proof (induction s rule: reconnectLoop.induct)
  case (1 s)
  show ?case
  proof (cases "connect s")
    case (Pair eo s1)
    show ?thesis
    proof (cases eo)
      case None
      with Pair 1 show ?thesis
        by (auto simp: reconnectLoop.simps [of s] split: if_splits dest: connect_ok_envSize)
    next
      case (Some e)
      with Pair 1 have w: "world s \<noteq> []" by (auto simp: reconnectLoop.simps [of s] split: if_splits)
      with Pair Some 1 have "envSize s' < worldSize (sleepRetry s1)"
        by (auto simp: reconnectLoop.simps [of s] split: if_splits)
      with connect_fail_worldSize [OF w] Pair Some show ?thesis by fastforce
    qed
  qed
qed

subsection \<open>Protocol client\<close>

text \<open>\<^verbatim>\<open>muninCommand\<close> writes the command, then peeks one byte: on end-of-stream
  it closes the connection, reconnects and calls itself; on any other error the process
  exits. It returns only without error, so the callers' \<^verbatim>\<open>if err != nil\<close> after
  it never fires. \<open>sent\<close> lists what has been written (the command is the format string
  of \<^verbatim>\<open>fmt.Fprintf\<close>; names with a percent sign are outside the model).\<close>

function muninCommand :: "string \<Rightarrow> 'v state \<Rightarrow> (reader, 'v state) outcome" where
  "muninCommand cmd s =
     (case NewReader s of (reader, s0) \<Rightarrow>
        (let s1 = s0\<lparr>sent := sent s0 @ [cmd @ [nl]]\<rparr> in
         case Peek reader of
           Some EOF \<Rightarrow>
             (case reconnectLoop (s1\<lparr>globalConn := []\<rparr>) of
                Return u s2 \<Rightarrow> muninCommand cmd s2
              | Exit s2 \<Rightarrow> Exit s2
              | Panic s2 \<Rightarrow> Panic s2
              | Hang \<Rightarrow> Hang)
         | None \<Rightarrow> Return reader s1
         | Some (IOError e) \<Rightarrow> Exit s1))"
  by pat_completeness auto
termination
proof (relation "measure (\<lambda>(cmd, s). envSize s)", goal_cases)
  case 1
  show ?case by simp
next
  case 2
  then show ?case
    using NewReader_world [OF sym] reconnectLoop_envSize
    by (fastforce simp: envSize_def worldSize_def)
qed

declare muninCommand.simps [simp del]

lemma muninCommand_envSize:
  "muninCommand cmd s = Return r s' \<Longrightarrow> envSize s' < envSize s"
proof (induction cmd s rule: muninCommand.induct)
  case (1 cmd s)
  obtain reader s0 where nr: "NewReader s = (reader, s0)" by (cases "NewReader s")
  show ?case
  proof (cases "Peek reader")
    case None
    with 1(2) nr have "s' = s0\<lparr>sent := sent s0 @ [cmd @ [nl]]\<rparr>"
      by (simp add: muninCommand.simps [of cmd s])
    with NewReader_Peek [OF nr None] show ?thesis by (simp add: envSize_def worldSize_def)
  next
    case (Some e)
    show ?thesis
    proof (cases e)
      case EOF
      let ?s1 = "s0\<lparr>sent := sent s0 @ [cmd @ [nl]]\<rparr>"
      from 1(2) nr Some EOF obtain u s2 where
        rl: "reconnectLoop (?s1\<lparr>globalConn := []\<rparr>) = Return u s2"
        and mc: "muninCommand cmd s2 = Return r s'"
        by (auto simp: muninCommand.simps [of cmd s] split: outcome.splits)
      from 1(1) [OF nr [symmetric] refl Some EOF rl mc]
      have "envSize s' < envSize s2" .
      moreover from reconnectLoop_envSize [OF rl] NewReader_world [OF nr]
      have "envSize s2 < envSize s" by (simp add: envSize_def worldSize_def)
      ultimately show ?thesis by simp
    next
      case (IOError m)
      with 1(2) nr Some show ?thesis by (simp add: muninCommand.simps [of cmd s])
    qed
  qed
qed

text \<open>\<^verbatim>\<open>muninList\<close>: the first line of the reply to \<^verbatim>\<open>list\<close>.\<close>

definition muninList :: "'v state \<Rightarrow> (err + string list, 'v state) outcome" where
  "muninList s =
     (case muninCommand ''list'' s of
        Return munin s1 \<Rightarrow>
          (case ReadString munin of
             (Inl e, _) \<Rightarrow> Return (Inl (ReadFailed e)) s1
           | (Inr response, _) \<Rightarrow>
               (case response of
                  [] \<Rightarrow> Panic s1
                | c # _ \<Rightarrow>
                    if c = CHR ''#'' then Return (Inl (ErrorGettingItems response)) s1
                    else Return (Inr (Fields (TrimRightNl response))) s1))
      | Exit s1 \<Rightarrow> Exit s1
      | Panic s1 \<Rightarrow> Panic s1
      | Hang \<Rightarrow> Hang)"

text \<open>Go's maps of the configuration are association lists with distinct keys. Go leaves
  the order in which \<^verbatim>\<open>range\<close> visits a map open; the model visits the keys in the
  order of their first insertion.\<close>

type_synonym strmap = "(string \<times> string) list"
type_synonym configs = "(string \<times> strmap) list"

text \<open>\<^verbatim>\<open>config[metric][attr] = v\<close>, creating the inner map when it is missing.\<close>

definition setAttr :: "string \<Rightarrow> string \<Rightarrow> string \<Rightarrow> configs \<Rightarrow> configs" where
  "setAttr metric attr v config =
     AList.update metric
       (AList.update attr v (case map_of config metric of None \<Rightarrow> [] | Some m \<Rightarrow> m)) config"

text \<open>\<^verbatim>\<open>muninConfig\<close> and its \<^verbatim>\<open>for\<close> loop. On end-of-stream the loop
  logs (\<^verbatim>\<open>rootLogger.Criticalf\<close> does not exit) and returns
  \<^verbatim>\<open>muninConfig(name)\<close>, which starts with fresh maps.\<close>

function muninConfig :: "string \<Rightarrow> 'v state \<Rightarrow> (err + configs \<times> strmap, 'v state) outcome"
  and configLoop :: "string \<Rightarrow> reader \<Rightarrow> configs \<Rightarrow> strmap \<Rightarrow> 'v state
                       \<Rightarrow> (err + configs \<times> strmap, 'v state) outcome"
where
  "muninConfig name s =
     (case muninCommand (''config '' @ name) s of
        Return resp s1 \<Rightarrow> configLoop name resp [] [] s1
      | Exit s1 \<Rightarrow> Exit s1
      | Panic s1 \<Rightarrow> Panic s1
      | Hang \<Rightarrow> Hang)"
| "configLoop name resp config graphConfig s =
     (case ReadString resp of
        (Inl EOF, resp') \<Rightarrow> muninConfig name s
      | (Inl (IOError e), resp') \<Rightarrow> Return (Inl (ReadFailed (IOError e))) s
      | (Inr line, resp') \<Rightarrow>
          if line = ''.'' @ [nl] then Return (Inr (config, graphConfig)) s
          else (case line of
                  [] \<Rightarrow> Panic s
                | c # _ \<Rightarrow>
                    if c = CHR ''#'' then configLoop name resp' config graphConfig s
                    else (let parts = Fields line in
                          if length parts < 2 then Return (Inl (LineUnexpected line)) s
                          else (let key = parts ! 0;
                                    val = TrimRightNl (JoinSp (drop 1 parts));
                                    keyParts = SplitDot key
                                in if length keyParts > 1
                                   then configLoop name resp'
                                          (setAttr (keyParts ! 0) (keyParts ! 1) val config)
                                          graphConfig s
                                   else configLoop name resp' config
                                          (AList.update (keyParts ! 0) val graphConfig) s))))"
  by pat_completeness auto
termination
proof (relation "measures
   [\<lambda>x. case x of Inl (name, s) \<Rightarrow> envSize s | Inr (name, resp, c, g, s) \<Rightarrow> Suc (envSize s),
    \<lambda>x. case x of Inl _ \<Rightarrow> Suc 0 | Inr _ \<Rightarrow> 0,
    \<lambda>x. case x of Inl _ \<Rightarrow> 0 | Inr (name, resp, c, g, s) \<Rightarrow> length (fst resp)]", goal_cases)
  case 1
  show ?case by simp
next
  case 2
  then show ?case by (auto dest!: muninCommand_envSize)
next
  case 3
  then show ?case by simp
next
  case 4
  then show ?case by (auto dest!: ReadString_shorter [OF sym])
next
  case 5
  then show ?case by (auto dest!: ReadString_shorter [OF sym])
next
  case 6
  then show ?case by (auto dest!: ReadString_shorter [OF sym])
qed

declare muninConfig.simps [simp del] configLoop.simps [simp del]

subsection \<open>Metric catalog\<close>

definition NewGaugeVec :: "string \<Rightarrow> string \<Rightarrow> strmap \<Rightarrow> string list \<Rightarrow> 'v GaugeVec" where
  "NewGaugeVec name hlp const labelNames =
     \<lparr>gaugeDesc = \<lparr>fqName = name, helpText = hlp, variableLabels = labelNames,
                    constLabels = const\<rparr>,
      children = Map.empty\<rparr>"

text \<open>\<^verbatim>\<open>gv.WithLabelValues(lvs...).Set(v)\<close>: the library panics when the number of
  label values is not the number of label names (\<open>None\<close>).\<close>

definition WithLabelValuesSet :: "'v GaugeVec \<Rightarrow> string list \<Rightarrow> 'v \<Rightarrow> 'v GaugeVec option" where
  "WithLabelValuesSet gv lvs v =
     (if length lvs = length (variableLabels (gaugeDesc gv))
      then Some (gv\<lparr>children := (children gv)(lvs \<mapsto> v)\<rparr>)
      else None)"

text \<open>\<^verbatim>\<open>newMuninCounter\<close>: value and labels start at Go's zero values. The only
  call passes three label names.\<close>

definition newMuninCounter ::
  "string \<Rightarrow> string \<Rightarrow> string list \<Rightarrow> strmap \<Rightarrow> 'v::zero muninCounter" where
  "newMuninCounter name desc VariableLabels constlabels =
     \<lparr>counterDesc = \<lparr>fqName = name, helpText = desc,
                      variableLabels = [VariableLabels ! 0, VariableLabels ! 1, VariableLabels ! 2],
                      constLabels = constlabels\<rparr>,
      cvalue = 0,
      currentLabels = []\<rparr>"

definition UpdateLabels :: "'v muninCounter \<Rightarrow> string list \<Rightarrow> 'v \<Rightarrow> 'v muninCounter" where
  "UpdateLabels c labels NewValue = c\<lparr>cvalue := NewValue, currentLabels := labels\<rparr>"

datatype valueType = CounterValue | GaugeValue

record 'v sample =
  sampleDesc :: Desc
  sampleType :: valueType
  sampleValue :: 'v
  sampleLabels :: "string list"

text \<open>\<^verbatim>\<open>prometheus.MustNewConstMetric\<close> panics (\<open>None\<close>) when the label values do
  not fit the description.\<close>

definition MustNewConstMetric :: "Desc \<Rightarrow> valueType \<Rightarrow> 'v \<Rightarrow> string list \<Rightarrow> 'v sample option" where
  "MustNewConstMetric d t v lvs =
     (if length lvs = length (variableLabels d)
      then Some \<lparr>sampleDesc = d, sampleType = t, sampleValue = v, sampleLabels = lvs\<rparr>
      else None)"

text \<open>\<^verbatim>\<open>(c *muninCounter) Collect\<close>: the sample sent on the channel and the counter
  afterwards (the placeholder labels are stored in the counter).\<close>

definition Collect :: "'v muninCounter \<Rightarrow> 'v sample option \<times> 'v muninCounter" where
  "Collect c =
     (let c1 = (if length (currentLabels c) = 0
                then c\<lparr>currentLabels := [''ThisMunin'', ''Plugin'', ''IsBroken'']\<rparr>
                else c)
      in (MustNewConstMetric (counterDesc c1) CounterValue (cvalue c1) (currentLabels c1), c1))"

text \<open>The body of \<^verbatim>\<open>for metric, config := range configs\<close> in
  \<^verbatim>\<open>registerMetrics\<close>. \<open>registered\<close> lists the names handed to
  \<^verbatim>\<open>prometheus.Register\<close>.\<close>

definition registerMetric :: "string \<Rightarrow> strmap \<Rightarrow> string \<times> strmap \<Rightarrow> 'v::zero state \<Rightarrow> 'v state" where
  "registerMetric name graphConfig mc s =
     (case mc of (metric, config) \<Rightarrow>
        (let mName = metricName name metric;
             desc0 = getStr graphConfig ''graph_title'' @ '': '' @ getStr config ''label'';
             desc = (if getStr config ''info'' \<noteq> [] then desc0 @ '', '' @ getStr config ''info''
                     else desc0);
             muninType = ToLower (getStr config ''type'')
         in if muninType = ''counter'' \<or> muninType = ''derive''
            then s\<lparr>counterPerMetric := (counterPerMetric s)(mName \<mapsto>
                       newMuninCounter mName desc [''hostname'', ''graphname'', ''muninlabel'']
                         [(''type'', muninType)]),
                   registered := registered s @ [mName]\<rparr>
            else s\<lparr>gaugePerMetric := (gaugePerMetric s)(mName \<mapsto>
                       NewGaugeVec mName desc [(''type'', ''gauge'')]
                         [''hostname'', ''graphname'', ''muninlabel'']),
                   registered := registered s @ [mName]\<rparr>))"

fun registerConfigs :: "string \<Rightarrow> strmap \<Rightarrow> configs \<Rightarrow> 'v::zero state \<Rightarrow> 'v state" where
  "registerConfigs name graphConfig [] s = s"
| "registerConfigs name graphConfig (mc # rest) s =
     registerConfigs name graphConfig rest (registerMetric name graphConfig mc s)"

text \<open>The end of \<^verbatim>\<open>registerMetrics\<close>: the build-info gauge is registered only, the
  fetch-time gauge is also stored under the key \<^verbatim>\<open>munin_fetching_metric\<close>.\<close>

definition registerOwn :: "'v state \<Rightarrow> 'v state" where
  "registerOwn s =
     s\<lparr>gaugePerMetric := (gaugePerMetric s)(''munin_fetching_metric'' \<mapsto>
          NewGaugeVec ''munin_exporter_munin_data_fetch_time''
            ''A metric showing the amount of time it takes to get all the data from munin and it's plugins''
            [(''type'', ''gauge'')] [''hostname'']),
       registered := registered s @ [''munin_exporter_build_info'',
                                     ''munin_exporter_munin_data_fetch_time'']\<rparr>"

text \<open>\<^verbatim>\<open>for _, name := range items\<close> and what follows it.\<close>

fun registerItems :: "string list \<Rightarrow> 'v::zero state \<Rightarrow> (err option, 'v state) outcome" where
  "registerItems [] s = Return None (registerOwn s)"
| "registerItems (name # items) s =
     (case muninConfig name (s\<lparr>graphs := graphs s @ [name]\<rparr>) of
        Return (Inl e) s1 \<Rightarrow> Return (Some e) s1
      | Return (Inr (configs, graphConfig)) s1 \<Rightarrow>
          registerItems items (registerConfigs name graphConfig configs s1)
      | Exit s1 \<Rightarrow> Exit s1
      | Panic s1 \<Rightarrow> Panic s1
      | Hang \<Rightarrow> Hang)"

definition registerMetrics :: "'v::zero state \<Rightarrow> (err option, 'v state) outcome" where
  "registerMetrics s =
     (case muninList s of
        Return (Inl e) s1 \<Rightarrow> Return (Some e) s1
      | Return (Inr items) s1 \<Rightarrow> registerItems items s1
      | Exit s1 \<Rightarrow> Exit s1
      | Panic s1 \<Rightarrow> Panic s1
      | Hang \<Rightarrow> Hang)"

subsection \<open>Sampler and wait group\<close>

text \<open>What the program takes from Go's library and clock: \<^verbatim>\<open>strconv.ParseFloat\<close>
  (\<open>None\<close> when it returns an error) and the conversion of a duration in nanoseconds to
  seconds as a \<^verbatim>\<open>float64\<close>. The type \<open>'v\<close> stands for \<^verbatim>\<open>float64\<close>.\<close>

record 'v lib =
  ParseFloat :: "string \<Rightarrow> 'v option"
  Seconds :: "nat \<Rightarrow> 'v"

text \<open>The body of the inner loop of \<^verbatim>\<open>fetchMetrics\<close> after the end marker has been
  ruled out: the new state, or \<open>None\<close> for a panic of \<^verbatim>\<open>WithLabelValues\<close>.\<close>

definition fetchLine :: "'v lib \<Rightarrow> string \<Rightarrow> string \<Rightarrow> 'v state \<Rightarrow> 'v state option" where
  "fetchLine lib graph line s =
     (let parts = Fields line in
      if length parts \<noteq> 2 then Some s
      else (let key = SplitDot (parts ! 0) ! 0; valueString = parts ! 1 in
            case ParseFloat lib valueString of
              None \<Rightarrow> Some s
            | Some v \<Rightarrow>
                (let name = metricName graph key in
                 case gaugePerMetric s name of
                   Some gv \<Rightarrow>
                     (case WithLabelValuesSet gv [hostname s, graph, key] v of
                        None \<Rightarrow> None
                      | Some gv' \<Rightarrow> Some (s\<lparr>gaugePerMetric := (gaugePerMetric s)(name \<mapsto> gv')\<rparr>))
                 | None \<Rightarrow>
                     (case counterPerMetric s name of
                        Some c \<Rightarrow>
                          Some (s\<lparr>counterPerMetric := (counterPerMetric s)(name \<mapsto>
                                   UpdateLabels c [hostname s, graph, key] v)\<rparr>)
                      | None \<Rightarrow> Some s))))"

lemma fetchLine_envSize: "fetchLine lib graph line s = Some s' \<Longrightarrow> envSize s' = envSize s"
  by (auto simp: fetchLine_def Let_def envSize_def worldSize_def
      split: if_splits option.splits)

text \<open>\<^verbatim>\<open>fetchMetrics\<close>, the loop over the graphs (with the lines that follow it) and
  the loop over the lines of one reply. \<open>start\<close> is \<^verbatim>\<open>time.Now()\<close> of the call.\<close>

function fetchMetrics :: "'v lib \<Rightarrow> 'v state \<Rightarrow> (err option, 'v state) outcome"
  and fetchGraphs :: "'v lib \<Rightarrow> nat \<Rightarrow> string list \<Rightarrow> 'v state \<Rightarrow> (err option, 'v state) outcome"
  and fetchLoop :: "'v lib \<Rightarrow> nat \<Rightarrow> string \<Rightarrow> string list \<Rightarrow> reader \<Rightarrow> 'v state
                     \<Rightarrow> (err option, 'v state) outcome"
where
  "fetchMetrics lib s = fetchGraphs lib (now s) (graphs s) (s\<lparr>wg := wg s + 1\<rparr>)"
| "fetchGraphs lib start [] s =
     (case gaugePerMetric s ''munin_fetching_metric'' of
        None \<Rightarrow> Panic s
      | Some gv \<Rightarrow>
          (case WithLabelValuesSet gv [hostname s] (Seconds lib (now s - start)) of
             None \<Rightarrow> Panic s
           | Some gv' \<Rightarrow>
               Return None
                 (s\<lparr>gaugePerMetric := (gaugePerMetric s)(''munin_fetching_metric'' \<mapsto> gv'),
                    wg := wg s - 1\<rparr>)))"
| "fetchGraphs lib start (graph # rest) s =
     (case muninCommand (''fetch '' @ graph) s of
        Return munin s1 \<Rightarrow> fetchLoop lib start graph rest munin s1
      | Exit s1 \<Rightarrow> Exit s1
      | Panic s1 \<Rightarrow> Panic s1
      | Hang \<Rightarrow> Hang)"
| "fetchLoop lib start graph rest munin s =
     (case ReadString munin of
        (Inl EOF, munin') \<Rightarrow> fetchMetrics lib s
      | (Inl (IOError e), munin') \<Rightarrow> Return (Some (ReadFailed (IOError e))) s
      | (Inr l, munin') \<Rightarrow>
          (let line = TrimRightNl l in
           if length line = 1 \<and> line ! 0 = CHR ''.'' then fetchGraphs lib start rest s
           else (case fetchLine lib graph line s of
                   None \<Rightarrow> Panic s
                 | Some s1 \<Rightarrow> fetchLoop lib start graph rest munin' s1)))"
  by pat_completeness auto
termination
proof (relation "measures
   [\<lambda>x. case x of Inl (lib, s) \<Rightarrow> envSize s
         | Inr (Inl (lib, start, gs, s)) \<Rightarrow> envSize s
         | Inr (Inr (lib, start, graph, rest, munin, s)) \<Rightarrow> Suc (envSize s),
    \<lambda>x. case x of Inl _ \<Rightarrow> 2 | Inr (Inl _) \<Rightarrow> Suc 0 | Inr (Inr _) \<Rightarrow> 0,
    \<lambda>x. case x of Inr (Inr (lib, start, graph, rest, munin, s)) \<Rightarrow> length (fst munin)
         | _ \<Rightarrow> 0]", goal_cases)
  case 1
  show ?case by simp
next
  case 2
  then show ?case by (simp add: envSize_def worldSize_def)
next
  case 3
  then show ?case by (auto dest!: muninCommand_envSize)
next
  case 4
  then show ?case by simp
next
  case 5
  then show ?case by simp
next
  case 6
  then show ?case by (auto dest!: ReadString_shorter [OF sym] fetchLine_envSize)
qed

declare fetchMetrics.simps [simp del] fetchGraphs.simps [simp del] fetchLoop.simps [simp del]

text \<open>The handler of \<^verbatim>\<open>serveStatus\<close> calls \<^verbatim>\<open>wg.Wait()\<close> first, which returns
  when the counter of the wait group is zero.\<close>

definition scrapeProceeds :: "'v state \<Rightarrow> bool" where
  "scrapeProceeds s = (wg s = 0)"

subsection \<open>The words of the specification\<close>






text \<open>ASCII text, as the spec has the wire protocol.\<close>

definition isASCII :: "string \<Rightarrow> bool" where
  "isASCII s = list_all (\<lambda>c. (of_char c :: nat) < 128) s"

definition dashToUnderscore :: "char \<Rightarrow> char" where
  "dashToUnderscore c = (if c = CHR ''-'' then CHR ''_'' else c)"

text \<open>The fetch-time gauge holds, for the current hostname, the time from \<open>start\<close> to now.\<close>

definition fetchTimePublished :: "'v lib \<Rightarrow> nat \<Rightarrow> 'v state \<Rightarrow> bool" where
  "fetchTimePublished lib start s =
     (case gaugePerMetric s ''munin_fetching_metric'' of
        None \<Rightarrow> False
      | Some gv \<Rightarrow> children gv [hostname s] = Some (Seconds lib (now s - start)))"

text \<open>Lines of a reply that the loops read without leaving: for \<open>config\<close> a comment or a
  line of at least two fields, for \<open>fetch\<close> any line but the end marker. \<open>unlines\<close> puts a
  line feed after each line; \<open>applyLines\<close> is the effect of the fetch lines in turn.\<close>

definition okConfigLine :: "string \<Rightarrow> bool" where
  "okConfigLine l =
     (nl \<notin> set l \<and> l \<noteq> ''.'' \<and> (take 1 l = ''#'' \<or> 2 \<le> length (Fields (l @ [nl]))))"

definition okFetchLine :: "string \<Rightarrow> bool" where
  "okFetchLine l = (nl \<notin> set l \<and> l \<noteq> ''.'')"

fun applyLines :: "'v lib \<Rightarrow> string \<Rightarrow> string list \<Rightarrow> 'v state \<Rightarrow> 'v state option" where
  "applyLines lib graph [] s = Some s"
| "applyLines lib graph (l # ls) s =
     (case fetchLine lib graph l s of None \<Rightarrow> None | Some s1 \<Rightarrow> applyLines lib graph ls s1)"

definition unlines :: "string list \<Rightarrow> string" where
  "unlines ls = concat (map (\<lambda>l. l @ [nl]) ls)"



definition cycleInv :: "'v lib \<Rightarrow> nat \<Rightarrow> int \<Rightarrow> err option \<Rightarrow> 'v state \<Rightarrow> bool" where
  "cycleInv lib start w r s' =
     (w \<le> wg s' \<and> (r \<noteq> None \<longrightarrow> w < wg s')
      \<and> (r = None \<longrightarrow>
           (\<exists>t. start \<le> t \<and> t \<le> now s' \<and> fetchTimePublished lib t s' \<and> (wg s' = w \<longrightarrow> t = start))))"

subsection \<open>Example inputs\<close>

text \<open>A stand-in for \<^verbatim>\<open>float64\<close> in the examples: values are integers,
  \<^verbatim>\<open>ParseFloat\<close> reads unsigned decimal numbers, durations stay in nanoseconds.\<close>

definition digitOf :: "char \<Rightarrow> int option" where
  "digitOf c = map_of (zip ''0123456789'' [0, 1, 2, 3, 4, 5, 6, 7, 8, 9]) c"

fun parseDigits :: "int \<Rightarrow> string \<Rightarrow> int option" where
  "parseDigits acc [] = Some acc"
| "parseDigits acc (c # cs) =
     (case digitOf c of None \<Rightarrow> None | Some d \<Rightarrow> parseDigits (10 * acc + d) cs)"

definition exLib :: "int lib" where
  "exLib = \<lparr>ParseFloat = (\<lambda>s. if s = [] then None else parseDigits 0 s), Seconds = int\<rparr>"

text \<open>The state after start-up against an agent \<open>host1\<close> with one graph \<open>cpu\<close> that has a
  gauge \<open>usage\<close> and a counter \<open>ticks\<close>.\<close>

definition exState :: "int state" where
  "exState =
     \<lparr>globalConn = [], hostname = ''host1'', graphs = [''cpu''],
      gaugePerMetric =
        [''cpu_usage'' \<mapsto> NewGaugeVec ''cpu_usage'' ''CPU usage: CPU Usage'' [(''type'', ''gauge'')]
                             [''hostname'', ''graphname'', ''muninlabel''],
         ''munin_fetching_metric'' \<mapsto>
           NewGaugeVec ''munin_exporter_munin_data_fetch_time''
             ''A metric showing the amount of time it takes to get all the data from munin and it's plugins''
             [(''type'', ''gauge'')] [''hostname'']],
      counterPerMetric =
        [''cpu_ticks'' \<mapsto> newMuninCounter ''cpu_ticks'' ''CPU usage: ticks''
                             [''hostname'', ''graphname'', ''muninlabel''] [(''type'', ''counter'')]],
      wg = 0,
      registered = [''cpu_usage'', ''cpu_ticks'', ''munin_exporter_build_info'',
                    ''munin_exporter_munin_data_fetch_time''],
      world = [], sent = [], now = 0\<rparr>"

definition exAgent :: "attempt list" where
  "exAgent =
     [Dialed [\<lparr>delay = 1, bytes = ''# munin node at host1'' @ [nl], after = IOError ''reset''\<rparr>,
              \<lparr>delay = 2, bytes = ''cpu'' @ [nl], after = IOError ''reset''\<rparr>,
              \<lparr>delay = 3,
               bytes = ''graph_title CPU usage'' @ [nl] @ ''usage.label CPU Usage'' @ [nl]
                       @ ''usage.type GAUGE'' @ [nl] @ ''ticks.label ticks'' @ [nl]
                       @ ''ticks.type DERIVE'' @ [nl] @ ''.'' @ [nl],
               after = IOError ''reset''\<rparr>]]"

definition exInit :: "int state" where
  "exInit =
     \<lparr>globalConn = [], hostname = [], graphs = [], gaugePerMetric = Map.empty,
      counterPerMetric = Map.empty, wg = 0, registered = [], world = exAgent, sent = [],
      now = 0\<rparr>"

definition exBadGreeting :: "int state" where
  "exBadGreeting =
     exInit\<lparr>hostname := ''old'',
            world := [Dialed [\<lparr>delay = 1, bytes = ''hello'' @ [nl], after = EOF\<rparr>]]\<rparr>"

text \<open>Reading an outcome.\<close>

definition returned :: "('a, 's) outcome \<Rightarrow> 'a option" where
  "returned out = (case out of Return r s \<Rightarrow> Some r | _ \<Rightarrow> None)"

definition finalState :: "('a, 's) outcome \<Rightarrow> 's option" where
  "finalState out = (case out of Return r s \<Rightarrow> Some s | Exit s \<Rightarrow> Some s | Panic s \<Rightarrow> Some s
                     | Hang \<Rightarrow> None)"

definition gaugeValue :: "string \<Rightarrow> string list \<Rightarrow> 'v state \<Rightarrow> 'v option" where
  "gaugeValue name lvs s =
     (case gaugePerMetric s name of None \<Rightarrow> None | Some gv \<Rightarrow> children gv lvs)"

definition exGreeting :: reply where
  "exGreeting = \<lparr>delay = 1, bytes = ''# munin node at host1'' @ [nl], after = IOError ''reset''\<rparr>"

text \<open>A cycle whose reply is cut by a read error after one line.\<close>

definition exErrorCycle :: "int state" where
  "exErrorCycle =
     exState\<lparr>globalConn := [\<lparr>delay = 5, bytes = ''usage.value 42'' @ [nl],
                               after = IOError ''reset''\<rparr>]\<rparr>"

text \<open>A cycle whose reply is cut by end-of-stream in its second line; the agent then accepts a
  new connection and answers the repeated command with an empty list of values.\<close>

definition exEofCycle :: "int state" where
  "exEofCycle =
     exState\<lparr>globalConn := [\<lparr>delay = 5, bytes = ''usage.value 42'' @ [nl] @ ''ticks.va'',
                               after = EOF\<rparr>],
             world := [Dialed [exGreeting,
                               \<lparr>delay = 7, bytes = ''.'' @ [nl], after = IOError ''reset''\<rparr>]]\<rparr>"

text \<open>The answer of the retry alone, on a connection that stays up.\<close>

definition exRetryOnly :: "int state" where
  "exRetryOnly =
     exState\<lparr>globalConn := [\<lparr>delay = 7, bytes = ''.'' @ [nl], after = IOError ''reset''\<rparr>]\<rparr>"

text \<open>A complete cycle.\<close>

definition exGoodCycle :: "int state" where
  "exGoodCycle =
     exState\<lparr>globalConn := [\<lparr>delay = 5,
                               bytes = ''usage.value 42'' @ [nl] @ ''ticks.value 7'' @ [nl]
                                       @ ''.'' @ [nl],
                               after = IOError ''reset''\<rparr>]\<rparr>"

text \<open>A reply to \<open>config cpu\<close> with a one-word line between well-formed lines.\<close>

definition exBadConfig :: "int state" where
  "exBadConfig =
     exState\<lparr>globalConn := [\<lparr>delay = 3,
                               bytes = ''graph_title CPU usage'' @ [nl] @ ''bogus'' @ [nl]
                                       @ ''usage.label CPU Usage'' @ [nl] @ ''.'' @ [nl],
                               after = IOError ''reset''\<rparr>]\<rparr>"

definition isGaugeKey :: "string \<Rightarrow> 'v state \<Rightarrow> bool" where
  "isGaugeKey name s = (case gaugePerMetric s name of None \<Rightarrow> False | Some gv \<Rightarrow> True)"

definition isCounterKey :: "string \<Rightarrow> 'v state \<Rightarrow> bool" where
  "isCounterKey name s = (case counterPerMetric s name of None \<Rightarrow> False | Some c \<Rightarrow> True)"


definition exStartup :: "int state" where
  "exStartup = snd (connect exInit)"

text \<open>A reply to \<open>config cpu\<close> cut by end-of-stream; the agent then accepts a new connection
  and answers the repeated command in full.\<close>

definition exTruncConfig :: "int state" where
  "exTruncConfig =
     exState\<lparr>globalConn := [\<lparr>delay = 3,
                               bytes = ''graph_title Old'' @ [nl] @ ''usage.type COUNTER'' @ [nl]
                                       @ ''usage.la'',
                               after = EOF\<rparr>],
             world := [Dialed [exGreeting,
                               \<lparr>delay = 3,
                                bytes = ''graph_title CPU usage'' @ [nl]
                                        @ ''usage.label CPU Usage'' @ [nl] @ ''.'' @ [nl],
                                after = IOError ''reset''\<rparr>]]\<rparr>"

text \<open>The state of the cycle from \<open>exEofCycle\<close> when its loop reads the end-of-stream: the
  first line has been applied, the clock is at 5.\<close>

definition exEofRead :: "int state" where
  "exEofRead =
     the (fetchLine exLib ''cpu'' ''usage.value 42''
            (exEofCycle\<lparr>globalConn := [], wg := 1, now := 5, sent := [''fetch cpu'' @ [nl]]\<rparr>))"

section \<open>Properties\<close>

subsection \<open>Reading one line\<close>

lemma ReadString_line:
  "nl \<notin> set c \<Longrightarrow> ReadString (c @ nl # bs, e) = (Inr (c @ [nl]), (bs, e))"
proof -
  assume a: "nl \<notin> set c"
  then have "takeWhile (\<lambda>x. x \<noteq> nl) (c @ nl # bs) = c"
    and "dropWhile (\<lambda>x. x \<noteq> nl) (c @ nl # bs) = nl # bs"
    by (induction c) auto
  then show ?thesis by (simp add: ReadString_def)
qed

lemma ReadString_partial:
  "nl \<notin> set p \<Longrightarrow> ReadString (p, e) = (Inl e, ([], e))"
  by (simp add: ReadString_def)

lemma TrimRightNl_line: "nl \<notin> set c \<Longrightarrow> TrimRightNl (c @ [nl]) = c"
proof -
  assume a: "nl \<notin> set c"
  have "dropWhile (\<lambda>x. x = nl) (rev c) = rev c"
  proof (cases "rev c")
    case Nil
    then show ?thesis by simp
  next
    case (Cons x xs)
    with a have "x \<noteq> nl" by (metis list.set_intros(1) set_rev)
    with Cons show ?thesis by simp
  qed
  then show ?thesis by (simp add: TrimRightNl_def)
qed

lemma is_dot: "(length line = Suc 0 \<and> line ! 0 = CHR ''.'') = (line = ''.'')"
  by (cases line) auto

lemma fetchLoop_line:
  assumes "nl \<notin> set c" and "c \<noteq> ''.''"
  shows "fetchLoop lib start graph rest (c @ nl # bs, e) s =
           (case fetchLine lib graph c s of
              None \<Rightarrow> Panic s
            | Some s1 \<Rightarrow> fetchLoop lib start graph rest (bs, e) s1)"
  using assms
  by (subst fetchLoop.simps) (simp add: ReadString_line TrimRightNl_line is_dot)

subsection \<open>The handshake expression\<close>

lemma banner_not_empty: "banner \<noteq> []"
  by (simp add: banner_def)

lemma take_is_prefix_iff: "(take (length p) l = p) = prefix p l"
  by (metis append_eq_conv_conj prefix_def)

lemma FindStringSubmatch_none: "(FindStringSubmatch l = []) = (\<not> sublist banner l)"
proof (induction l)
  case Nil
  then show ?case by (simp add: banner_not_empty)
next
  case (Cons c cs)
  then show ?case
    by (simp add: sublist_Cons_right take_is_prefix_iff Let_def del: take_Suc_Cons)
qed

lemma FindStringSubmatch_prefix:
  "nl \<notin> set h \<Longrightarrow> FindStringSubmatch (banner @ h @ nl # post) = [banner @ h, h]"
proof -
  assume a: "nl \<notin> set h"
  obtain c cs where b: "banner @ h @ nl # post = c # cs"
    using banner_not_empty by (cases "banner @ h @ nl # post") auto
  have t: "takeWhile (\<lambda>x. x \<noteq> nl) (h @ nl # post) = h"
    using a by (induction h) auto
  have tk: "take (length banner) (c # cs) = banner"
    unfolding b [symmetric] by simp
  have dr: "drop (length banner) (c # cs) = h @ nl # post"
    unfolding b [symmetric] by simp
  have "FindStringSubmatch (c # cs) = [banner @ h, h]"
    by (simp only: FindStringSubmatch.simps tk dr Let_def t) simp
  with b show ?thesis by simp
qed

lemma FindStringSubmatch_leftmost:
  "\<not> sublist banner (pre @ butlast banner) \<Longrightarrow> nl \<notin> set h \<Longrightarrow>
   FindStringSubmatch (pre @ banner @ h @ nl # post) = [banner @ h, h]"
proof (induction pre)
  case Nil
  then show ?case by (simp add: FindStringSubmatch_prefix)
next
  case (Cons p pre)
  from Cons.prems(1) have ns: "\<not> sublist banner (pre @ butlast banner)"
    and np: "\<not> prefix banner (p # pre @ butlast banner)"
    by (simp_all add: sublist_Cons_right)
  have "\<not> prefix banner (p # pre @ banner @ h @ nl # post)"
  proof
    assume "prefix banner (p # pre @ banner @ h @ nl # post)"
    then have "take (length banner) (p # pre @ banner @ h @ nl # post) = banner"
      by (simp only: take_is_prefix_iff)
    moreover have "take (length banner) (p # pre @ banner @ h @ nl # post)
                     = take (length banner) (p # pre @ butlast banner)"
    proof -
      have e: "p # pre @ banner @ h @ nl # post
                 = (p # pre @ butlast banner) @ (last banner # h @ nl # post)"
        using banner_not_empty by simp
      have "length banner \<le> length (p # pre @ butlast banner)"
        using banner_not_empty by (cases banner) auto
      then show ?thesis by (simp only: e take_append) simp
    qed
    ultimately have "take (length banner) (p # pre @ butlast banner) = banner" by simp
    then have "prefix banner (p # pre @ butlast banner)"
      by (simp only: take_is_prefix_iff)
    with np show False by simp
  qed
  then have "take (length banner) (p # pre @ banner @ h @ nl # post) \<noteq> banner"
    by (simp only: take_is_prefix_iff) simp
  then have "FindStringSubmatch ((p # pre) @ banner @ h @ nl # post)
               = FindStringSubmatch (pre @ banner @ h @ nl # post)"
    by (simp del: take_Suc_Cons)
  with Cons.IH [OF ns Cons.prems(2)] show ?case by simp
qed

lemma banner_in_line: "sublist banner (l @ [nl]) = sublist banner l"
proof -
  have "banner \<noteq> zs @ [nl]" for zs
  proof
    assume "banner = zs @ [nl]"
    then have "last banner = nl" by (metis last_snoc)
    then show False by (simp add: banner_def nl_def)
  qed
  then show ?thesis by (simp add: sublist_snoc banner_not_empty)
qed

lemma connect_line:
  assumes "world s = Dialed (r # rs) # w" and "bytes r = l @ nl # bs" and "nl \<notin> set l"
  shows "connect s =
           (let s1 = s\<lparr>globalConn := (if after r = EOF then [] else rs), world := w,
                        now := now s + delay r\<rparr>;
                matches = FindStringSubmatch (l @ [nl])
            in if length matches \<noteq> 2 then (Some (UnexpectedLine (l @ [nl])), s1)
               else (None, s1\<lparr>hostname := matches ! 1\<rparr>))"
  using assms by (simp add: connect_def NewReader_def ReadString_line Let_def)

subsection \<open>Classification and identifiers\<close>







text \<open>Outside ASCII: a \<open>type\<close> attribute written with U+0130 for the letter I lower-cases to
  \<open>derive\<close>, and the metric is registered as a counter.\<close>

lemma dotted_capital_I_is_lowered:
  "ToLower (''DER'' @ [CHR 0xC4, CHR 0xB0] @ ''VE'') = ''derive''
   \<and> isCounterKey ''cpu_ticks''
         (registerMetric ''cpu'' [] (''ticks'', [(''type'', ''DER'' @ [CHR 0xC4, CHR 0xB0] @ ''VE'')])
            exInit)
   \<and> \<not> isASCII (''DER'' @ [CHR 0xC4, CHR 0xB0] @ ''VE'')"
  by (intro conjI; code_simp)

lemma Replace_dash: "Replace s ''-'' ''_'' = map dashToUnderscore s"
  by (induction s) (simp_all add: dashToUnderscore_def)

lemma fieldsFrom_word:
  "\<forall>c \<in> set a. \<not> isSpace c \<Longrightarrow> fieldsFrom w (a @ r) = fieldsFrom (w @ a) r"
  by (induction a arbitrary: w) simp_all

lemma Fields_two:
  assumes "a \<noteq> []" and "\<forall>c \<in> set a. \<not> isSpace c" and "b \<noteq> []" and "\<forall>c \<in> set b. \<not> isSpace c"
  shows "Fields (a @ '' '' @ b) = [a, b]"
proof -
  have "fieldsFrom [] (a @ '' '' @ b) = fieldsFrom a ('' '' @ b)"
    using fieldsFrom_word [OF assms(2), of "[]"] by simp
  also have "\<dots> = a # fieldsFrom [] b"
    using assms(1) by (simp add: isSpace_def)
  also have "fieldsFrom [] b = fieldsFrom b []"
    using fieldsFrom_word [OF assms(4), of "[]" "[]"] by simp
  finally show ?thesis using assms(3) by (simp add: Fields_def)
qed

lemma SplitDot_first: "CHR ''.'' \<notin> set m \<Longrightarrow> SplitDot (m @ CHR ''.'' # x) = m # SplitDot x"
  by (induction m) auto

subsection \<open>What the connection manager leaves alone\<close>

lemma NewReader_frame:
  "NewReader s = (r, s') \<Longrightarrow>
     wg s' = wg s \<and> now s \<le> now s' \<and> gaugePerMetric s' = gaugePerMetric s
     \<and> counterPerMetric s' = counterPerMetric s \<and> graphs s' = graphs s
     \<and> registered s' = registered s \<and> hostname s' = hostname s"
  by (auto simp: NewReader_def split: list.splits)

lemma connect_frame:
  "connect s = (e, s') \<Longrightarrow>
     wg s' = wg s \<and> now s \<le> now s' \<and> gaugePerMetric s' = gaugePerMetric s
     \<and> counterPerMetric s' = counterPerMetric s \<and> graphs s' = graphs s
     \<and> registered s' = registered s"
  by (auto simp: connect_def Let_def NewReader_def ReadString_def
      split: list.splits attempt.splits prod.splits sum.splits if_splits)

lemma reconnectLoop_frame:
  "reconnectLoop s = Return u s' \<Longrightarrow>
     wg s' = wg s \<and> now s \<le> now s' \<and> gaugePerMetric s' = gaugePerMetric s
     \<and> counterPerMetric s' = counterPerMetric s \<and> graphs s' = graphs s
     \<and> registered s' = registered s"
proof (induction s rule: reconnectLoop.induct)
  case (1 s)
  obtain eo s1 where c: "connect s = (eo, s1)" by (cases "connect s")
  note f = connect_frame [OF c]
  show ?case
  proof (cases eo)
    case None
    with c 1(2) have "s' = s1" by (simp add: reconnectLoop.simps [of s] split: if_splits)
    with f show ?thesis by simp
  next
    case (Some e)
    with c 1(2) have w: "world s \<noteq> []" and r: "reconnectLoop (sleepRetry s1) = Return u s'"
      by (simp_all add: reconnectLoop.simps [of s] split: if_splits)
    from 1(1) [OF w c [symmetric] Some r] f show ?thesis
      by (simp add: sleepRetry_def)
  qed
qed

lemma reconnectLoop_returns_or_hangs:
  "reconnectLoop s \<noteq> Exit s' \<and> reconnectLoop s \<noteq> Panic s'"
proof (induction s rule: reconnectLoop.induct)
  case (1 s)
  obtain eo s1 where c: "connect s = (eo, s1)" by (cases "connect s")
  show ?case
  proof (cases "world s = []")
    case True
    then show ?thesis by (simp add: reconnectLoop.simps [of s])
  next
    case False
    show ?thesis
    proof (cases eo)
      case None
      with c False show ?thesis by (simp add: reconnectLoop.simps [of s])
    next
      case (Some e)
      with 1 [OF False c [symmetric] Some] c False show ?thesis
        by (simp add: reconnectLoop.simps [of s])
    qed
  qed
qed

lemma muninCommand_frame:
  "muninCommand cmd s = Return r s' \<Longrightarrow>
     wg s' = wg s \<and> now s \<le> now s' \<and> gaugePerMetric s' = gaugePerMetric s
     \<and> counterPerMetric s' = counterPerMetric s \<and> graphs s' = graphs s
     \<and> registered s' = registered s"
proof (induction cmd s rule: muninCommand.induct)
  case (1 cmd s)
  obtain reader s0 where nr: "NewReader s = (reader, s0)" by (cases "NewReader s")
  note f = NewReader_frame [OF nr]
  show ?case
  proof (cases "Peek reader")
    case None
    with 1(2) nr have "s' = s0\<lparr>sent := sent s0 @ [cmd @ [nl]]\<rparr>"
      by (simp add: muninCommand.simps [of cmd s])
    with f show ?thesis by simp
  next
    case (Some e)
    show ?thesis
    proof (cases e)
      case EOF
      let ?s1 = "s0\<lparr>sent := sent s0 @ [cmd @ [nl]]\<rparr>"
      from 1(2) nr Some EOF obtain u s2 where
        rl: "reconnectLoop (?s1\<lparr>globalConn := []\<rparr>) = Return u s2"
        and mc: "muninCommand cmd s2 = Return r s'"
        by (auto simp: muninCommand.simps [of cmd s] split: outcome.splits)
      from 1(1) [OF nr [symmetric] refl Some EOF rl mc] reconnectLoop_frame [OF rl] f
      show ?thesis by simp
    next
      case (IOError m)
      with 1(2) nr Some show ?thesis by (simp add: muninCommand.simps [of cmd s])
    qed
  qed
qed

lemma fetchLine_frame:
  "fetchLine lib graph line s = Some s' \<Longrightarrow>
     wg s' = wg s \<and> now s' = now s \<and> graphs s' = graphs s \<and> hostname s' = hostname s
     \<and> registered s' = registered s \<and> globalConn s' = globalConn s \<and> world s' = world s
     \<and> sent s' = sent s"
  by (auto simp: fetchLine_def Let_def split: if_splits option.splits)

subsection \<open>The wait group and the fetch time over a whole cycle\<close>

lemma cycleInv_restart:
  "cycleInv lib t0 (w + 1) r s' \<Longrightarrow> start \<le> t0 \<Longrightarrow> cycleInv lib start w r s'"
  unfolding cycleInv_def by (metis add_le_cancel_right le_trans less_add_one not_le zle_add1_eq_le order.strict_trans2 order_less_imp_le add.commute)

lemma fetch_cycle:
  "fetchMetrics lib s = Return r s' \<Longrightarrow> cycleInv lib (now s) (wg s) r s'"
  "fetchGraphs lib start gs s = Return r s' \<Longrightarrow> start \<le> now s \<Longrightarrow> cycleInv lib start (wg s - 1) r s'"
  "fetchLoop lib start graph rest munin s = Return r s' \<Longrightarrow> start \<le> now s
     \<Longrightarrow> cycleInv lib start (wg s - 1) r s'"
proof (induction lib s and lib start gs s and lib start graph rest munin s
       arbitrary: r s' and r s' and r s'
       rule: fetchMetrics_fetchGraphs_fetchLoop.induct)
  case (1 lib s)
  from 1(2) have "fetchGraphs lib (now s) (graphs s) (s\<lparr>wg := wg s + 1\<rparr>) = Return r s'"
    by (simp add: fetchMetrics.simps)
  from 1(1) [OF this] show ?case by simp
next
  case (2 lib start s)
  from 2 show ?case
    by (auto simp: fetchGraphs.simps cycleInv_def fetchTimePublished_def WithLabelValuesSet_def
        intro!: exI [of _ start] split: option.splits if_splits)
next
  case (3 lib start graph rest s)
  from 3(2) obtain munin s1 where mc: "muninCommand (''fetch '' @ graph) s = Return munin s1"
    and fl: "fetchLoop lib start graph rest munin s1 = Return r s'"
    by (auto simp: fetchGraphs.simps split: outcome.splits)
  note f = muninCommand_frame [OF mc]
  from f 3(3) have "start \<le> now s1" by simp
  from 3(1) [OF mc fl this] f show ?case by simp
next
  case (4 lib start graph rest munin s)
  obtain res munin' where rs: "ReadString munin = (res, munin')" by (cases "ReadString munin")
  show ?case
  proof (cases res)
    case (Inl e)
    show ?thesis
    proof (cases e)
      case EOF
      with Inl rs 4(4) have fm: "fetchMetrics lib s = Return r s'"
        by (simp add: fetchLoop.simps [of lib start graph rest munin s])
      from 4(1) [OF rs [symmetric] _ _ fm] Inl EOF
      have "cycleInv lib (now s) (wg s) r s'" by simp
      then show ?thesis using 4(5) cycleInv_restart [of lib "now s" "wg s - 1" r s' start] by simp
    next
      case (IOError m)
      with Inl rs 4(4) show ?thesis
        by (auto simp: fetchLoop.simps [of lib start graph rest munin s] cycleInv_def)
    qed
  next
    case (Inr l)
    show ?thesis
    proof (cases "length (TrimRightNl l) = 1 \<and> TrimRightNl l ! 0 = CHR ''.''")
      case True
      with Inr rs 4(4) have "fetchGraphs lib start rest s = Return r s'"
        by (simp add: fetchLoop.simps [of lib start graph rest munin s])
      from 4(2) [OF rs [symmetric] Inr refl True this 4(5)] show ?thesis .
    next
      case False
      with Inr rs 4(4) obtain s1 where fl: "fetchLine lib graph (TrimRightNl l) s = Some s1"
        and lp: "fetchLoop lib start graph rest munin' s1 = Return r s'"
        by (auto simp: fetchLoop.simps [of lib start graph rest munin s] Let_def
            split: option.splits)
      note f = fetchLine_frame [OF fl]
      from f 4(5) have "start \<le> now s1" by simp
      from 4(3) [OF rs [symmetric] Inr refl False fl lp this] f show ?thesis by simp
    qed
  qed
qed

text \<open>Every return with an error leaves the counter of the wait group above its value
  at entry.\<close>

lemma error_return_keeps_wait_group_up:
  "fetchMetrics lib s = Return (Some e) s' \<Longrightarrow> wg s < wg s'"
  using fetch_cycle(1) [of lib s "Some e" s'] by (simp add: cycleInv_def)

subsection \<open>Replies cut short\<close>

lemma unlines_Cons: "unlines (l # ls) @ p = l @ nl # (unlines ls @ p)"
  by (simp add: unlines_def)

lemma configLoop_line:
  assumes "nl \<notin> set c"
  shows "configLoop name (c @ nl # bs, e) config graphConfig s =
           (if c = ''.'' then Return (Inr (config, graphConfig)) s
            else if take 1 c = ''#'' then configLoop name (bs, e) config graphConfig s
            else (let parts = Fields (c @ [nl]) in
                  if length parts < 2 then Return (Inl (LineUnexpected (c @ [nl]))) s
                  else (let key = parts ! 0;
                            val = TrimRightNl (JoinSp (drop 1 parts));
                            keyParts = SplitDot key
                        in if length keyParts > 1
                           then configLoop name (bs, e)
                                  (setAttr (keyParts ! 0) (keyParts ! 1) val config) graphConfig s
                           else configLoop name (bs, e) config
                                  (AList.update (keyParts ! 0) val graphConfig) s)))"
proof -
  have hd: "(case c @ [nl] of [] \<Rightarrow> x | ch # _ \<Rightarrow> f ch) = f (hd (c @ [nl]))" for x :: 'b and f
    by (cases c) simp_all
  have sharp: "(hd (c @ [nl]) = CHR ''#'') = (take 1 c = ''#'')"
    by (cases c) (simp_all add: nl_def)
  show ?thesis
    by (subst configLoop.simps) (simp add: ReadString_line [OF assms] hd sharp Let_def)
qed

lemma configLoop_partial:
  "nl \<notin> set p \<Longrightarrow> configLoop name (p, EOF) config graphConfig s = muninConfig name s"
  by (subst configLoop.simps) (simp add: ReadString_partial)

lemma configLoop_truncated:
  assumes "\<forall>l \<in> set ls. okConfigLine l" and "nl \<notin> set p"
  shows "configLoop name (unlines ls @ p, EOF) config graphConfig s = muninConfig name s"
  using assms(1)
proof (induction ls arbitrary: config graphConfig)
  case Nil
  then show ?case by (simp add: unlines_def configLoop_partial [OF assms(2)])
next
  case (Cons l ls)
  then have ok: "okConfigLine l" and rest: "\<forall>l \<in> set ls. okConfigLine l" by simp_all
  from ok have n: "nl \<notin> set l" by (simp add: okConfigLine_def)
  show ?case
    unfolding unlines_Cons configLoop_line [OF n]
    using ok Cons.IH [OF rest] by (auto simp: okConfigLine_def Let_def)
qed

lemma fetchLoop_partial:
  "nl \<notin> set p \<Longrightarrow> fetchLoop lib start graph rest (p, EOF) s = fetchMetrics lib s"
  by (subst fetchLoop.simps) (simp add: ReadString_partial)

lemma fetchLoop_truncated:
  assumes "\<forall>l \<in> set ls. okFetchLine l" and "nl \<notin> set p"
    and "applyLines lib graph ls s = Some s1"
  shows "fetchLoop lib start graph rest (unlines ls @ p, EOF) s = fetchMetrics lib s1"
  using assms(1,3)
proof (induction ls arbitrary: s)
  case Nil
  then show ?case by (simp add: unlines_def fetchLoop_partial [OF assms(2)])
next
  case (Cons l ls)
  then have ok: "nl \<notin> set l" "l \<noteq> ''.''" and rest: "\<forall>l \<in> set ls. okFetchLine l"
    by (simp_all add: okFetchLine_def)
  from Cons.prems(2) obtain s0 where f: "fetchLine lib graph l s = Some s0"
    and a: "applyLines lib graph ls s0 = Some s1"
    by (auto split: option.splits)
  show ?case
    unfolding unlines_Cons fetchLoop_line [OF ok]
    using Cons.IH [OF rest a] by (simp add: f)
qed

lemma muninCommand_reply:
  assumes "globalConn s = r # rs" and "bytes r \<noteq> []"
  shows "muninCommand cmd s =
           Return (bytes r, after r)
             (s\<lparr>globalConn := (if after r = EOF then [] else rs), now := now s + delay r,
                sent := sent s @ [cmd @ [nl]]\<rparr>)"
  using assms by (subst muninCommand.simps) (simp add: NewReader_def Peek_def)

lemma muninCommand_closed:
  assumes "globalConn s = []"
  shows "muninCommand cmd s =
           (case reconnectLoop (s\<lparr>sent := sent s @ [cmd @ [nl]], globalConn := []\<rparr>) of
              Return u s2 \<Rightarrow> muninCommand cmd s2
            | Exit s2 \<Rightarrow> Exit s2
            | Panic s2 \<Rightarrow> Panic s2
            | Hang \<Rightarrow> Hang)"
  using assms by (subst muninCommand.simps) (simp add: NewReader_def Peek_def)

lemma muninConfig_closed:
  assumes "globalConn s = []"
  shows "muninConfig name s =
           (case reconnectLoop (s\<lparr>sent := sent s @ [''config '' @ name @ [nl]],
                                  globalConn := []\<rparr>) of
              Return u s2 \<Rightarrow> muninConfig name s2
            | Exit s2 \<Rightarrow> Exit s2
            | Panic s2 \<Rightarrow> Panic s2
            | Hang \<Rightarrow> Hang)"
  by (simp add: muninConfig.simps [of name] muninCommand_closed [OF assms] split: outcome.splits)

subsection \<open>What the protocol client leaves alone\<close>



subsection \<open>The catalog after registration\<close>










subsection \<open>The example state\<close>

text \<open>Start-up against \<open>exAgent\<close> ends in the graphs, hostname and catalog keys of
  \<open>exState\<close>.\<close>

lemma exState_is_startup:
  "returned (registerMetrics exStartup) = Some None
   \<and> map_option graphs (finalState (registerMetrics exStartup)) = Some (graphs exState)
   \<and> map_option hostname (finalState (registerMetrics exStartup)) = Some (hostname exState)
   \<and> map_option registered (finalState (registerMetrics exStartup)) = Some (registered exState)
   \<and> map_option (isGaugeKey ''cpu_usage'') (finalState (registerMetrics exStartup)) = Some True
   \<and> map_option (isCounterKey ''cpu_ticks'') (finalState (registerMetrics exStartup)) = Some True
   \<and> map_option (isGaugeKey ''munin_fetching_metric'') (finalState (registerMetrics exStartup))
       = Some True"
  by (intro conjI; code_simp)

text \<open>The cycle from \<open>exEofCycle\<close> reaches the end-of-stream in the state \<open>exEofRead\<close>.\<close>

lemma exEofCycle_reads_eof:
  "fetchMetrics exLib exEofCycle = fetchLoop exLib 0 ''cpu'' [] (''ticks.va'', EOF) exEofRead"
proof -
  have n: "nl \<notin> set ''usage.value 42''" and d: "''usage.value 42'' \<noteq> ''.''" by (simp_all add: nl_def)
  let ?s0 = "exEofCycle\<lparr>globalConn := [], wg := 1, now := 5, sent := [''fetch cpu'' @ [nl]]\<rparr>"
  have c: "muninCommand (''fetch '' @ ''cpu'') (exEofCycle\<lparr>wg := wg exEofCycle + 1\<rparr>)
             = Return (''usage.value 42'' @ nl # ''ticks.va'', EOF) ?s0"
    by (subst muninCommand.simps) (simp add: NewReader_def Peek_def exEofCycle_def exState_def)
  have "(case fetchLine exLib ''cpu'' ''usage.value 42'' ?s0 of None \<Rightarrow> False | Some x \<Rightarrow> True)"
    by code_simp
  then have f: "fetchLine exLib ''cpu'' ''usage.value 42'' ?s0 = Some exEofRead"
    by (cases "fetchLine exLib ''cpu'' ''usage.value 42'' ?s0") (simp_all add: exEofRead_def)
  have g: "graphs exEofCycle = [''cpu'']" and t: "now exEofCycle = 0"
    by (simp_all add: exEofCycle_def exState_def)
  have "fetchMetrics exLib exEofCycle
          = fetchLoop exLib 0 ''cpu'' [] (''usage.value 42'' @ nl # ''ticks.va'', EOF) ?s0"
    unfolding fetchMetrics.simps g t fetchGraphs.simps c by simp
  also have "\<dots> = fetchLoop exLib 0 ''cpu'' [] (''ticks.va'', EOF) exEofRead"
    unfolding fetchLoop_line [OF n d] f by simp
  finally show ?thesis .
qed

subsection \<open>Claims\<close>

text \<open>
  C1. The counter of the wait group does not return to zero on every path. A cycle entered
  with the counter at 0 that is aborted by a read error returns the error with the counter
  at 1; a cycle that hits end-of-stream, reconnects and then runs to its end returns without
  error with the counter at 1. In both states \<^verbatim>\<open>wg.Wait()\<close> of the scrape handler
  does not return.
\<close>
theorem wait_group_stays_up_after_error_or_retry:
  "wg exErrorCycle = 0
   \<and> returned (fetchMetrics exLib exErrorCycle) = Some (Some (ReadFailed (IOError ''reset'')))
   \<and> map_option wg (finalState (fetchMetrics exLib exErrorCycle)) = Some 1
   \<and> map_option scrapeProceeds (finalState (fetchMetrics exLib exErrorCycle)) = Some False
   \<and> wg exEofCycle = 0
   \<and> returned (fetchMetrics exLib exEofCycle) = Some None
   \<and> map_option wg (finalState (fetchMetrics exLib exEofCycle)) = Some 1
   \<and> map_option scrapeProceeds (finalState (fetchMetrics exLib exEofCycle)) = Some False"
  by (intro conjI; code_simp)

text \<open>
  C2, as the code has it. In a \<open>fetch\<close> reply a line that does not split into two fields,
  or whose value does not parse, is skipped: the state is unchanged and the loop goes on
  with the next line. In a \<open>config\<close> reply a line of fewer than two fields that is neither
  a comment nor the end marker makes \<^verbatim>\<open>muninConfig\<close> return the error
  \<^verbatim>\<open>Line unexpected\<close>.
\<close>
theorem malformed_line_policy:
  assumes "nl \<notin> set c" and "c \<noteq> ''.''"
  shows "(length (Fields c) \<noteq> 2 \<or> ParseFloat lib (Fields c ! 1) = None \<longrightarrow>
            fetchLine lib graph c s = Some s
            \<and> fetchLoop lib start graph rest (c @ nl # bs, e) s
                = fetchLoop lib start graph rest (bs, e) s)
       \<and> (take 1 c \<noteq> ''#'' \<and> length (Fields (c @ [nl])) < 2 \<longrightarrow>
            configLoop name (c @ nl # bs, e) config graphConfig s
              = Return (Inl (LineUnexpected (c @ [nl]))) s)"
proof (intro conjI impI)
  assume a: "length (Fields c) \<noteq> 2 \<or> ParseFloat lib (Fields c ! 1) = None"
  then show fl: "fetchLine lib graph c s = Some s"
    by (auto simp: fetchLine_def Let_def)
  have "fetchLoop lib start graph rest (c @ nl # bs, e) s =
          (case fetchLine lib graph c s of
             None \<Rightarrow> Panic s
           | Some s1 \<Rightarrow> fetchLoop lib start graph rest (bs, e) s1)"
    by (rule fetchLoop_line [OF assms])
  also have "\<dots> = fetchLoop lib start graph rest (bs, e) s"
    by (simp add: fl)
  finally show "fetchLoop lib start graph rest (c @ nl # bs, e) s
                  = fetchLoop lib start graph rest (bs, e) s" .
next
  assume "take 1 c \<noteq> ''#'' \<and> length (Fields (c @ [nl])) < 2"
  then show "configLoop name (c @ nl # bs, e) config graphConfig s
               = Return (Inl (LineUnexpected (c @ [nl]))) s"
    using assms by (simp add: configLoop_line Let_def)
qed

theorem malformed_line_policy_witness:
  "fetchLine exLib ''cpu'' ''bogus'' exState = Some exState
   \<and> fetchLoop exLib 0 ''cpu'' [] (''bogus'' @ nl # ''.'' @ [nl], EOF) exState
       = fetchLoop exLib 0 ''cpu'' [] (''.'' @ [nl], EOF) exState
   \<and> fetchLine exLib ''cpu'' ''usage.value abc'' exState = Some exState
   \<and> fetchLoop exLib 0 ''cpu'' [] (''usage.value abc'' @ nl # ''.'' @ [nl], EOF) exState
       = fetchLoop exLib 0 ''cpu'' [] (''.'' @ [nl], EOF) exState
   \<and> configLoop ''cpu'' (''bogus'' @ nl # ''.'' @ [nl], EOF) [] [] exState
       = Return (Inl (LineUnexpected (''bogus'' @ [nl]))) exState"
proof -
  have n1: "nl \<notin> set ''bogus''" and d1: "''bogus'' \<noteq> ''.''" by (simp_all add: nl_def)
  have n2: "nl \<notin> set ''usage.value abc''" and d2: "''usage.value abc'' \<noteq> ''.''"
    by (simp_all add: nl_def)
  have f1: "length (Fields ''bogus'') \<noteq> 2 \<or> ParseFloat exLib (Fields ''bogus'' ! 1) = None"
    by code_simp
  have f2: "length (Fields ''usage.value abc'') \<noteq> 2
            \<or> ParseFloat exLib (Fields ''usage.value abc'' ! 1) = None"
    by code_simp
  have f3: "take 1 ''bogus'' \<noteq> ''#'' \<and> length (Fields (''bogus'' @ [nl])) < 2"
    by code_simp
  from malformed_line_policy [OF n1 d1, of exLib "''cpu''" exState 0 "[]" "''.'' @ [nl]" EOF "''cpu''" "[]" "[]"]
       malformed_line_policy [OF n2 d2, of exLib "''cpu''" exState 0 "[]" "''.'' @ [nl]" EOF "''cpu''" "[]" "[]"]
       f1 f2 f3
  show ?thesis by blast
qed

text \<open>Against C2 as stated: a one-word line in a \<open>config\<close> reply is fatal to the command,
  though well-formed lines and the end marker follow it.\<close>
theorem config_short_line_is_fatal:
  "returned (muninConfig ''cpu'' exBadConfig) = Some (Inl (LineUnexpected (''bogus'' @ [nl])))"
  by code_simp

text \<open>
  C3, as the code has it. When a reply ends in end-of-stream before its end marker:
  \<^verbatim>\<open>muninConfig\<close> writes the command again, runs the reconnect loop and starts over
  with empty maps on the new connection, so nothing of the cut reply is kept (it never
  ends the process: it hangs while the agent stays unreachable);
  \<^verbatim>\<open>fetchMetrics\<close> starts the whole cycle again from the first graph, in the state
  that the lines read before the end-of-stream have left.
\<close>
theorem eof_retry:
  assumes "globalConn s = r # rs" and "after r = EOF" and "bytes r = unlines ls @ p"
    and "bytes r \<noteq> []" and "nl \<notin> set p"
  shows "((\<forall>l \<in> set ls. okConfigLine l) \<longrightarrow>
            muninConfig name s =
              (case reconnectLoop
                      (s\<lparr>globalConn := [], now := now s + delay r,
                         sent := sent s @ [''config '' @ name @ [nl], ''config '' @ name @ [nl]]\<rparr>) of
                 Return u s2 \<Rightarrow> muninConfig name s2
               | _ \<Rightarrow> Hang))
       \<and> ((\<forall>l \<in> set ls. okFetchLine l) \<longrightarrow>
            (\<forall>s1. applyLines lib graph ls
                     (s\<lparr>globalConn := [], now := now s + delay r,
                        sent := sent s @ [''fetch '' @ graph @ [nl]]\<rparr>) = Some s1 \<longrightarrow>
                   fetchGraphs lib start (graph # rest) s = fetchMetrics lib s1))"
proof (intro conjI impI allI)
  assume ok: "\<forall>l \<in> set ls. okConfigLine l"
  define s1 where "s1 = s\<lparr>globalConn := [], now := now s + delay r,
                           sent := sent s @ [''config '' @ name @ [nl]]\<rparr>"
  have c: "muninCommand (''config '' @ name) s = Return (unlines ls @ p, EOF) s1"
    using muninCommand_reply [OF assms(1,4), of "''config '' @ name"] assms(2,3)
    by (simp add: s1_def)
  have "muninConfig name s = configLoop name (unlines ls @ p, EOF) [] [] s1"
    unfolding muninConfig.simps [of name s] c by simp
  also have "\<dots> = muninConfig name s1"
    by (rule configLoop_truncated [OF ok assms(5)])
  finally have a: "muninConfig name s = muninConfig name s1" .
  have cl: "muninConfig name s1 =
              (case reconnectLoop (s1\<lparr>sent := sent s1 @ [''config '' @ name @ [nl]],
                                     globalConn := []\<rparr>) of
                 Return u s2 \<Rightarrow> muninConfig name s2
               | Exit s2 \<Rightarrow> Exit s2
               | Panic s2 \<Rightarrow> Panic s2
               | Hang \<Rightarrow> Hang)"
    by (rule muninConfig_closed) (simp add: s1_def)
  have st: "s1\<lparr>sent := sent s1 @ [''config '' @ name @ [nl]], globalConn := []\<rparr>
              = s\<lparr>globalConn := [], now := now s + delay r,
                   sent := sent s @ [''config '' @ name @ [nl], ''config '' @ name @ [nl]]\<rparr>"
    by (simp add: s1_def)
  have "muninConfig name s =
              (case reconnectLoop
                      (s\<lparr>globalConn := [], now := now s + delay r,
                         sent := sent s @ [''config '' @ name @ [nl], ''config '' @ name @ [nl]]\<rparr>) of
                 Return u s2 \<Rightarrow> muninConfig name s2
               | Exit s2 \<Rightarrow> Exit s2
               | Panic s2 \<Rightarrow> Panic s2
               | Hang \<Rightarrow> Hang)"
    unfolding a using cl unfolding st .
  then show "muninConfig name s =
              (case reconnectLoop
                      (s\<lparr>globalConn := [], now := now s + delay r,
                         sent := sent s @ [''config '' @ name @ [nl], ''config '' @ name @ [nl]]\<rparr>) of
                 Return u s2 \<Rightarrow> muninConfig name s2
               | _ \<Rightarrow> Hang)"
    using reconnectLoop_returns_or_hangs
    by (auto split: outcome.splits)
next
  fix s1
  assume ok: "\<forall>l \<in> set ls. okFetchLine l"
    and ap: "applyLines lib graph ls
               (s\<lparr>globalConn := [], now := now s + delay r,
                  sent := sent s @ [''fetch '' @ graph @ [nl]]\<rparr>) = Some s1"
  define s0 where "s0 = s\<lparr>globalConn := [], now := now s + delay r,
                           sent := sent s @ [''fetch '' @ graph @ [nl]]\<rparr>"
  have c: "muninCommand (''fetch '' @ graph) s = Return (unlines ls @ p, EOF) s0"
    using muninCommand_reply [OF assms(1,4), of "''fetch '' @ graph"] assms(2,3)
    by (simp add: s0_def)
  have "fetchGraphs lib start (graph # rest) s
          = fetchLoop lib start graph rest (unlines ls @ p, EOF) s0"
    unfolding fetchGraphs.simps c by simp
  also have "\<dots> = fetchMetrics lib s1"
    by (rule fetchLoop_truncated [OF ok assms(5)]) (use ap in \<open>unfold s0_def\<close>)
  finally show "fetchGraphs lib start (graph # rest) s = fetchMetrics lib s1" .
qed

theorem eof_retry_witness:
  "returned (muninConfig ''cpu'' exTruncConfig)
     = Some (Inr ([(''usage'', [(''label'', ''CPU Usage'')])], [(''graph_title'', ''CPU usage'')]))
   \<and> fetchGraphs exLib 0 [''cpu''] exEofCycle
       = fetchMetrics exLib
           (the (applyLines exLib ''cpu'' [''usage.value 42'']
                   (exEofCycle\<lparr>globalConn := [], now := now exEofCycle + 5,
                               sent := sent exEofCycle @ [''fetch '' @ ''cpu'' @ [nl]]\<rparr>)))"
proof -
  let ?r = "\<lparr>delay = 3, bytes = ''graph_title Old'' @ [nl] @ ''usage.type COUNTER'' @ [nl] @ ''usage.la'',
             after = EOF\<rparr>"
  have g: "globalConn exTruncConfig = ?r # []" by (simp add: exTruncConfig_def)
  have a: "after ?r = EOF" by simp
  have b: "bytes ?r = unlines [''graph_title Old'', ''usage.type COUNTER''] @ ''usage.la''"
    by (simp add: unlines_def)
  have ne: "bytes ?r \<noteq> []" by simp
  have np: "nl \<notin> set ''usage.la''" by (simp add: nl_def)
  have ok: "\<forall>l \<in> set [''graph_title Old'', ''usage.type COUNTER'']. okConfigLine l"
    by (simp add: okConfigLine_def nl_def Fields_def isSpace_def)
  note t = eof_retry [OF g a b ne np, where name = "''cpu''"]
  from t ok have e: "muninConfig ''cpu'' exTruncConfig =
          (case reconnectLoop
                  (exTruncConfig\<lparr>globalConn := [], now := now exTruncConfig + delay ?r,
                     sent := sent exTruncConfig @ [''config '' @ ''cpu'' @ [nl], ''config '' @ ''cpu'' @ [nl]]\<rparr>) of
             Return u s2 \<Rightarrow> muninConfig ''cpu'' s2
           | _ \<Rightarrow> Hang)"
    by blast
  have v: "returned (case reconnectLoop
                  (exTruncConfig\<lparr>globalConn := [], now := now exTruncConfig + delay ?r,
                     sent := sent exTruncConfig @ [''config '' @ ''cpu'' @ [nl], ''config '' @ ''cpu'' @ [nl]]\<rparr>) of
             Return u s2 \<Rightarrow> muninConfig ''cpu'' s2
           | _ \<Rightarrow> Hang)
     = Some (Inr ([(''usage'', [(''label'', ''CPU Usage'')])], [(''graph_title'', ''CPU usage'')]))"
    by code_simp
  let ?q = "\<lparr>delay = 5, bytes = ''usage.value 42'' @ [nl] @ ''ticks.va'', after = EOF\<rparr>"
  let ?s0 = "exEofCycle\<lparr>globalConn := [], now := now exEofCycle + 5,
                        sent := sent exEofCycle @ [''fetch '' @ ''cpu'' @ [nl]]\<rparr>"
  have g': "globalConn exEofCycle = ?q # []" by (simp add: exEofCycle_def)
  have a': "after ?q = EOF" by simp
  have b': "bytes ?q = unlines [''usage.value 42''] @ ''ticks.va''" by (simp add: unlines_def)
  have ne': "bytes ?q \<noteq> []" by simp
  have np': "nl \<notin> set ''ticks.va''" by (simp add: nl_def)
  have ok': "\<forall>l \<in> set [''usage.value 42'']. okFetchLine l" by (simp add: okFetchLine_def nl_def)
  have "(case applyLines exLib ''cpu'' [''usage.value 42''] ?s0 of None \<Rightarrow> False | Some x \<Rightarrow> True)"
    by code_simp
  then have ap: "applyLines exLib ''cpu'' [''usage.value 42''] ?s0
                   = Some (the (applyLines exLib ''cpu'' [''usage.value 42''] ?s0))"
    by (cases "applyLines exLib ''cpu'' [''usage.value 42''] ?s0") simp_all
  note t' = eof_retry [OF g' a' b' ne' np', where lib = exLib and graph = "''cpu''"
                         and start = 0 and rest = "[]"]
  from t' ok' ap
  have "fetchGraphs exLib 0 [''cpu''] exEofCycle
          = fetchMetrics exLib (the (applyLines exLib ''cpu'' [''usage.value 42''] ?s0))"
    by simp
  with e v show ?thesis by simp
qed

text \<open>Against C3 as stated: the value read before the end-of-stream is still in the catalog
  after the retry, whose reply does not mention the metric.\<close>
theorem fetch_keeps_values_read_before_eof:
  "map_option (gaugeValue ''cpu_usage'' [''host1'', ''cpu'', ''usage''])
     (finalState (fetchMetrics exLib exEofCycle)) = Some (Some 42)
   \<and> map_option (gaugeValue ''cpu_usage'' [''host1'', ''cpu'', ''usage''])
     (finalState (fetchMetrics exLib exRetryOnly)) = Some None
   \<and> map_option sent (finalState (fetchMetrics exLib exEofCycle))
       = Some [''fetch cpu'' @ [nl], ''fetch cpu'' @ [nl], ''fetch cpu'' @ [nl]]"
  by (intro conjI; code_simp)

text \<open>
  C4. \<^verbatim>\<open>connect\<close> on a greeting line \<open>l\<close>: it succeeds exactly when the line
  contains \<^verbatim>\<open># munin node at \<close>; without a match it returns the error
  \<^verbatim>\<open>Unexpected line\<close> and leaves the hostname as it was (unset at start-up); with a
  match the hostname is the group of the expression, the text that follows the leftmost
  occurrence of the literal up to the end of the line.
\<close>

theorem connect_handshake:
  assumes "world s = Dialed (r # rs) # w" and "bytes r = l @ nl # bs" and "nl \<notin> set l"
  shows "((fst (connect s) = None) = sublist banner l)
       \<and> (\<not> sublist banner l \<longrightarrow>
           fst (connect s) = Some (UnexpectedLine (l @ [nl]))
           \<and> hostname (snd (connect s)) = hostname s)
       \<and> (\<forall>pre h. l = pre @ banner @ h \<and> \<not> sublist banner (pre @ butlast banner) \<longrightarrow>
           fst (connect s) = None \<and> hostname (snd (connect s)) = h)"
proof (intro conjI)
  note c = connect_line [OF assms]
  have two: "FindStringSubmatch x \<noteq> [] \<Longrightarrow> length (FindStringSubmatch x) = 2" for x
    by (induction x) (auto simp: Let_def simp del: take_Suc_Cons)
  show "(fst (connect s) = None) = sublist banner l"
    using two [of "l @ [nl]"] FindStringSubmatch_none [of "l @ [nl]"]
    by (auto simp: c Let_def banner_in_line)
  show "\<not> sublist banner l \<longrightarrow>
           fst (connect s) = Some (UnexpectedLine (l @ [nl]))
           \<and> hostname (snd (connect s)) = hostname s"
    using FindStringSubmatch_none [of "l @ [nl]"]
    by (auto simp: c Let_def banner_in_line)
  show "\<forall>pre h. l = pre @ banner @ h \<and> \<not> sublist banner (pre @ butlast banner) \<longrightarrow>
           fst (connect s) = None \<and> hostname (snd (connect s)) = h"
  proof (intro allI impI)
    fix pre h
    assume a: "l = pre @ banner @ h \<and> \<not> sublist banner (pre @ butlast banner)"
    with assms(3) have "nl \<notin> set h" by simp
    with a have "FindStringSubmatch (l @ [nl]) = [banner @ h, h]"
      using FindStringSubmatch_leftmost [of pre h "[]"] by simp
    then show "fst (connect s) = None \<and> hostname (snd (connect s)) = h"
      by (simp add: c Let_def)
  qed
qed

theorem connect_handshake_witness:
  "world exInit = Dialed (\<lparr>delay = 1, bytes = ''# munin node at host1'' @ [nl], after = IOError ''reset''\<rparr>
                           # tl (case hd exAgent of Dialed c \<Rightarrow> c | _ \<Rightarrow> [])) # []
   \<and> nl \<notin> set ''# munin node at host1''
   \<and> fst (connect exInit) = None \<and> hostname (snd (connect exInit)) = ''host1''
   \<and> world exBadGreeting = [Dialed [\<lparr>delay = 1, bytes = ''hello'' @ [nl], after = EOF\<rparr>]]
   \<and> \<not> sublist banner ''hello''
   \<and> fst (connect exBadGreeting) = Some (UnexpectedLine (''hello'' @ [nl]))
   \<and> hostname (snd (connect exBadGreeting)) = ''old''"
proof -
  let ?r = "\<lparr>delay = 1, bytes = ''# munin node at host1'' @ [nl], after = IOError ''reset''\<rparr>"
  let ?rs = "tl (case hd exAgent of Dialed c \<Rightarrow> c | _ \<Rightarrow> [])"
  have w: "world exInit = Dialed (?r # ?rs) # []" by (simp add: exInit_def exAgent_def)
  have b: "bytes ?r = ''# munin node at host1'' @ nl # []" by simp
  have n: "nl \<notin> set ''# munin node at host1''" by (simp add: nl_def)
  have p: "''# munin node at host1'' = [] @ banner @ ''host1''" by (simp add: banner_def)
  have q: "\<not> sublist banner ([] @ butlast banner)"
    using sublist_length_le [of banner "butlast banner"] by (auto simp: banner_def)
  let ?r' = "\<lparr>delay = 1, bytes = ''hello'' @ [nl], after = EOF\<rparr>"
  have w': "world exBadGreeting = Dialed (?r' # []) # []" by (simp add: exBadGreeting_def)
  have b': "bytes ?r' = ''hello'' @ nl # []" by simp
  have n': "nl \<notin> set ''hello''" by (simp add: nl_def)
  have q': "\<not> sublist banner ''hello''"
    using sublist_length_le [of banner "''hello''"] by (auto simp: banner_def)
  have h: "hostname exBadGreeting = ''old''" by (simp add: exBadGreeting_def)
  from connect_handshake [OF w b n] p q have "fst (connect exInit) = None \<and> hostname (snd (connect exInit)) = ''host1''"
    by blast
  moreover from connect_handshake [OF w' b' n'] q' h
  have "fst (connect exBadGreeting) = Some (UnexpectedLine (''hello'' @ [nl]))
        \<and> hostname (snd (connect exBadGreeting)) = ''old''"
    by simp
  ultimately show ?thesis using w n w' q' by simp
qed



text \<open>
  C6. The identifier is \<open>graph\<close>, an underscore and \<open>metric\<close> with every \<open>-\<close> turned into
  \<open>_\<close>, and a fetch line resolves to the same identifier as the registration: after
  registering \<open>(graph, key)\<close>, the line \<open>key.value v\<close> of that graph updates the entry stored
  under \<open>metricName graph key\<close>.
\<close>

theorem identifier_derivation:
  assumes "key \<noteq> []" and "\<forall>c \<in> set key. \<not> isSpace c \<and> c \<noteq> CHR ''.''"
    and "v \<noteq> []" and "\<forall>c \<in> set v. \<not> isSpace c" and "ParseFloat lib v = Some x"
    and "gaugePerMetric s (metricName graph key) = None"
  shows "metricName graph key = map dashToUnderscore (graph @ ''_'' @ key)
       \<and> (\<exists>s2. fetchLine lib graph (key @ ''.value '' @ v)
                  (registerMetric graph graphConfig (key, config) s) = Some s2
              \<and> ((\<exists>g. gaugePerMetric s2 (metricName graph key) = Some g
                       \<and> children g [hostname s, graph, key] = Some x)
                 \<or> (\<exists>c. counterPerMetric s2 (metricName graph key) = Some c
                       \<and> cvalue c = x \<and> currentLabels c = [hostname s, graph, key])))"
proof -
  define line where "line = key @ ''.value '' @ v"
  let ?n = "metricName graph key"
  let ?r = "registerMetric graph graphConfig (key, config) s"
  have f: "Fields line = [key @ ''.value'', v]"
    unfolding line_def
    using Fields_two [of "key @ ''.value''" v] assms(1-4) by (auto simp: isSpace_def)
  have "CHR ''.'' \<notin> set key" using assms(2) by blast
  then have "SplitDot (key @ CHR ''.'' # ''value'') = key # SplitDot ''value''"
    by (rule SplitDot_first)
  then have d: "SplitDot (key @ ''.value'') ! 0 = key" by simp
  have k: "SplitDot ([key @ ''.value'', v] ! 0) ! 0 = key" using d by simp
  have p: "[key @ ''.value'', v] ! 1 = v" by simp
  have fl: "fetchLine lib graph line t =
              (case gaugePerMetric t ?n of
                 Some gv \<Rightarrow>
                   (case WithLabelValuesSet gv [hostname t, graph, key] x of
                      None \<Rightarrow> None
                    | Some gv' \<Rightarrow> Some (t\<lparr>gaugePerMetric := (gaugePerMetric t)(?n \<mapsto> gv')\<rparr>))
               | None \<Rightarrow>
                   (case counterPerMetric t ?n of
                      Some c \<Rightarrow>
                        Some (t\<lparr>counterPerMetric := (counterPerMetric t)(?n \<mapsto>
                                 UpdateLabels c [hostname t, graph, key] x)\<rparr>)
                    | None \<Rightarrow> Some t))" for t
    unfolding fetchLine_def Let_def f k p assms(5) by simp
  have h: "hostname ?r = hostname s"
    by (simp add: registerMetric_def Let_def)
  have name: "?n = map dashToUnderscore (graph @ ''_'' @ key)"
    by (simp add: metricName_def Replace_dash)
  show ?thesis
  proof (cases "ToLower (getStr config ''type'') = ''counter''
                \<or> ToLower (getStr config ''type'') = ''derive''")
    case True
    then obtain c where c: "counterPerMetric ?r ?n = Some c" and g: "gaugePerMetric ?r ?n = None"
      using assms(6) by (auto simp: registerMetric_def Let_def)
    have "fetchLine lib graph line ?r =
            Some (?r\<lparr>counterPerMetric := (counterPerMetric ?r)(?n \<mapsto>
                     UpdateLabels c [hostname s, graph, key] x)\<rparr>)"
      by (simp add: fl c g h)
    then have "\<exists>s2. fetchLine lib graph line ?r = Some s2
                 \<and> (\<exists>c. counterPerMetric s2 ?n = Some c
                        \<and> cvalue c = x \<and> currentLabels c = [hostname s, graph, key])"
      by (simp add: UpdateLabels_def)
    then show ?thesis unfolding line_def using name by blast
  next
    case False
    then have g: "gaugePerMetric ?r ?n =
                    Some (NewGaugeVec ?n
                            (if getStr config ''info'' \<noteq> []
                             then getStr graphConfig ''graph_title'' @ '': '' @ getStr config ''label''
                                  @ '', '' @ getStr config ''info''
                             else getStr graphConfig ''graph_title'' @ '': '' @ getStr config ''label'')
                            [(''type'', ''gauge'')] [''hostname'', ''graphname'', ''muninlabel''])"
      by (simp add: registerMetric_def Let_def)
    define g0 where "g0 = the (gaugePerMetric ?r ?n)"
    from g have g': "gaugePerMetric ?r ?n = Some g0"
      and vl: "variableLabels (gaugeDesc g0) = [''hostname'', ''graphname'', ''muninlabel'']"
      by (simp_all add: g0_def NewGaugeVec_def)
    have w: "WithLabelValuesSet g0 [hostname s, graph, key] x
               = Some (g0\<lparr>children := (children g0)([hostname s, graph, key] \<mapsto> x)\<rparr>)"
      by (simp add: WithLabelValuesSet_def vl)
    have "fetchLine lib graph line ?r =
            Some (?r\<lparr>gaugePerMetric := (gaugePerMetric ?r)(?n \<mapsto>
                     g0\<lparr>children := (children g0)([hostname s, graph, key] \<mapsto> x)\<rparr>)\<rparr>)"
      by (simp add: fl g' h w)
    then have "\<exists>s2. fetchLine lib graph line ?r = Some s2
                 \<and> (\<exists>g. gaugePerMetric s2 ?n = Some g
                        \<and> children g [hostname s, graph, key] = Some x)"
      by simp
    then show ?thesis unfolding line_def using name by blast
  qed
qed

theorem identifier_derivation_witness:
  "ParseFloat exLib ''42'' = Some 42
   \<and> gaugePerMetric exInit (metricName ''if-eth0'' ''usage'') = None
   \<and> metricName ''if-eth0'' ''usage'' = ''if_eth0_usage''
   \<and> (\<exists>s2. fetchLine exLib ''if-eth0'' (''usage'' @ ''.value '' @ ''42'')
                  (registerMetric ''if-eth0'' [] (''usage'', []) exInit) = Some s2
              \<and> ((\<exists>g. gaugePerMetric s2 ''if_eth0_usage'' = Some g
                       \<and> children g [hostname exInit, ''if-eth0'', ''usage''] = Some 42)
                 \<or> (\<exists>c. counterPerMetric s2 ''if_eth0_usage'' = Some c
                       \<and> cvalue c = 42 \<and> currentLabels c = [hostname exInit, ''if-eth0'', ''usage''])))"
proof -
  have h1: "''usage'' \<noteq> []" by simp
  have h2: "\<forall>c \<in> set ''usage''. \<not> isSpace c \<and> c \<noteq> CHR ''.''" by (simp add: isSpace_def)
  have h3: "''42'' \<noteq> []" by simp
  have h4: "\<forall>c \<in> set ''42''. \<not> isSpace c" by (simp add: isSpace_def)
  have h5: "ParseFloat exLib ''42'' = Some 42" by (simp add: exLib_def digitOf_def)
  have h6: "gaugePerMetric exInit (metricName ''if-eth0'' ''usage'') = None"
    by (simp add: exInit_def)
  have n: "map dashToUnderscore (''if-eth0'' @ ''_'' @ ''usage'') = ''if_eth0_usage''"
    by (simp add: dashToUnderscore_def)
  note t = identifier_derivation [OF h1 h2 h3 h4 h5 h6, where graphConfig = "[]" and config = "[]"]
  from t have "metricName ''if-eth0'' ''usage'' = map dashToUnderscore (''if-eth0'' @ ''_'' @ ''usage'')"
    by (rule conjunct1)
  with n have m: "metricName ''if-eth0'' ''usage'' = ''if_eth0_usage''" by simp
  from t have e: "\<exists>s2. fetchLine exLib ''if-eth0'' (''usage'' @ ''.value '' @ ''42'')
                  (registerMetric ''if-eth0'' [] (''usage'', []) exInit) = Some s2
              \<and> ((\<exists>g. gaugePerMetric s2 (metricName ''if-eth0'' ''usage'') = Some g
                       \<and> children g [hostname exInit, ''if-eth0'', ''usage''] = Some 42)
                 \<or> (\<exists>c. counterPerMetric s2 (metricName ''if-eth0'' ''usage'') = Some c
                       \<and> cvalue c = 42 \<and> currentLabels c = [hostname exInit, ''if-eth0'', ''usage'']))"
    by (rule conjunct2)
  show ?thesis
    using h5 h6 m e [unfolded m] by (intro conjI)
qed

text \<open>
  C7. A fetch line whose identifier is a key of neither \<open>gaugePerMetric\<close> nor
  \<open>counterPerMetric\<close> leaves the whole state as it was: no entry is changed, none is
  added, and the loop goes on with the next line in the same state.
\<close>
theorem fetch_unknown_identifier_changes_nothing:
  assumes "gaugePerMetric s (metricName graph (SplitDot (Fields c ! 0) ! 0)) = None"
    and "counterPerMetric s (metricName graph (SplitDot (Fields c ! 0) ! 0)) = None"
    and "nl \<notin> set c" and "c \<noteq> ''.''"
  shows "fetchLine lib graph c s = Some s
       \<and> fetchLoop lib start graph rest (c @ nl # bs, e) s
           = fetchLoop lib start graph rest (bs, e) s"
proof -
  from assms(1,2) have fl: "fetchLine lib graph c s = Some s"
    by (simp add: fetchLine_def Let_def split: option.splits)
  have "fetchLoop lib start graph rest (c @ nl # bs, e) s =
          (case fetchLine lib graph c s of
             None \<Rightarrow> Panic s
           | Some s1 \<Rightarrow> fetchLoop lib start graph rest (bs, e) s1)"
    by (rule fetchLoop_line [OF assms(3,4)])
  also have "\<dots> = fetchLoop lib start graph rest (bs, e) s"
    by (simp add: fl)
  finally show ?thesis using fl by simp
qed

theorem fetch_unknown_identifier_witness:
  "gaugePerMetric exState (metricName ''cpu'' (SplitDot (Fields ''bogus.value 7'' ! 0) ! 0)) = None
   \<and> counterPerMetric exState (metricName ''cpu'' (SplitDot (Fields ''bogus.value 7'' ! 0) ! 0)) = None
   \<and> nl \<notin> set ''bogus.value 7'' \<and> ''bogus.value 7'' \<noteq> ''.''
   \<and> fetchLine exLib ''cpu'' ''bogus.value 7'' exState = Some exState
   \<and> fetchLoop exLib 0 ''cpu'' [] (''bogus.value 7'' @ nl # ''.'' @ [nl], EOF) exState
       = fetchLoop exLib 0 ''cpu'' [] (''.'' @ [nl], EOF) exState"
proof -
  have h1: "gaugePerMetric exState (metricName ''cpu'' (SplitDot (Fields ''bogus.value 7'' ! 0) ! 0)) = None"
    by code_simp
  have h2: "counterPerMetric exState (metricName ''cpu'' (SplitDot (Fields ''bogus.value 7'' ! 0) ! 0)) = None"
    by code_simp
  have h3: "nl \<notin> set ''bogus.value 7''" by (simp add: nl_def)
  have h4: "''bogus.value 7'' \<noteq> ''.''" by simp
  from fetch_unknown_identifier_changes_nothing [OF h1 h2 h3 h4, of exLib 0 "[]" "''.'' @ [nl]" EOF]
    h1 h2 h3 h4
  show ?thesis by blast
qed

text \<open>
  C8, as the code has it. A call of \<^verbatim>\<open>fetchMetrics\<close> that returns without error
  and was not restarted (the wait group is back at its value) has stored in the fetch-time
  gauge, under the hostname at its end, the time from its start to its end. When the loop
  reads an end-of-stream, the cycle starts again there: if that run returns without error
  and is not restarted again, the gauge holds the time from the reading of the
  end-of-stream to the end. In every return without error the gauge holds a time that
  began within the call.
\<close>
theorem fetch_time_published_on_success:
  "(fetchMetrics lib s = Return None s' \<and> wg s' = wg s \<longrightarrow> fetchTimePublished lib (now s) s')
   \<and> (nl \<notin> set p \<and> fetchLoop lib start graph rest (p, EOF) sx = Return None s' \<and> wg s' = wg sx
        \<longrightarrow> fetchTimePublished lib (now sx) s')
   \<and> (fetchMetrics lib s = Return None s'
        \<longrightarrow> (\<exists>t. now s \<le> t \<and> t \<le> now s' \<and> fetchTimePublished lib t s'))"
proof (intro conjI impI)
  assume "fetchMetrics lib s = Return None s' \<and> wg s' = wg s"
  with fetch_cycle(1) [of lib s None s'] show "fetchTimePublished lib (now s) s'"
    by (auto simp: cycleInv_def)
next
  assume a: "nl \<notin> set p \<and> fetchLoop lib start graph rest (p, EOF) sx = Return None s' \<and> wg s' = wg sx"
  then have "fetchMetrics lib sx = Return None s'"
    using fetchLoop_partial [of p lib start graph rest sx] by simp
  with a fetch_cycle(1) [of lib sx None s'] show "fetchTimePublished lib (now sx) s'"
    by (auto simp: cycleInv_def)
next
  assume "fetchMetrics lib s = Return None s'"
  with fetch_cycle(1) [of lib s None s']
  show "\<exists>t. now s \<le> t \<and> t \<le> now s' \<and> fetchTimePublished lib t s'"
    by (auto simp: cycleInv_def)
qed

theorem fetch_time_published_witness:
  "returned (fetchMetrics exLib exGoodCycle) = Some None
   \<and> map_option wg (finalState (fetchMetrics exLib exGoodCycle)) = Some (wg exGoodCycle)
   \<and> map_option now (finalState (fetchMetrics exLib exGoodCycle)) = Some 5
   \<and> map_option (fetchTimePublished exLib (now exGoodCycle))
       (finalState (fetchMetrics exLib exGoodCycle)) = Some True
   \<and> fetchMetrics exLib exEofCycle = fetchLoop exLib 0 ''cpu'' [] (''ticks.va'', EOF) exEofRead
   \<and> now exEofRead = 5
   \<and> returned (fetchLoop exLib 0 ''cpu'' [] (''ticks.va'', EOF) exEofRead) = Some None
   \<and> map_option wg (finalState (fetchLoop exLib 0 ''cpu'' [] (''ticks.va'', EOF) exEofRead))
       = Some (wg exEofRead)
   \<and> map_option now (finalState (fetchLoop exLib 0 ''cpu'' [] (''ticks.va'', EOF) exEofRead))
       = Some 13
   \<and> map_option (fetchTimePublished exLib (now exEofRead))
       (finalState (fetchLoop exLib 0 ''cpu'' [] (''ticks.va'', EOF) exEofRead)) = Some True"
proof -
  have r: "returned (fetchMetrics exLib exGoodCycle) = Some None" by code_simp
  have w: "map_option wg (finalState (fetchMetrics exLib exGoodCycle)) = Some (wg exGoodCycle)"
    by code_simp
  have n: "map_option now (finalState (fetchMetrics exLib exGoodCycle)) = Some 5" by code_simp
  from r obtain s' where f: "fetchMetrics exLib exGoodCycle = Return None s'"
    by (cases "fetchMetrics exLib exGoodCycle") (simp_all add: returned_def)
  with w have "wg s' = wg exGoodCycle" by (simp add: finalState_def)
  with fetch_time_published_on_success [where lib = exLib and s = exGoodCycle and s' = s'] f
  have p1: "fetchTimePublished exLib (now exGoodCycle) s'" by blast
  let ?c = "fetchLoop exLib 0 ''cpu'' [] (''ticks.va'', EOF) exEofRead"
  have t5: "now exEofRead = 5" by code_simp
  have r2: "returned ?c = Some None" by code_simp
  have w2: "map_option wg (finalState ?c) = Some (wg exEofRead)" by code_simp
  have n2: "map_option now (finalState ?c) = Some 13" by code_simp
  have np: "nl \<notin> set ''ticks.va''" by (simp add: nl_def)
  from r2 obtain s2 where f2: "?c = Return None s2"
    by (cases ?c) (simp_all add: returned_def)
  with w2 have "wg s2 = wg exEofRead" by (simp add: finalState_def)
  with fetch_time_published_on_success [where lib = exLib and s' = s2 and p = "''ticks.va''" and start = 0
            and graph = "''cpu''" and rest = "[]" and sx = exEofRead] f2 np
  have p2: "fetchTimePublished exLib (now exEofRead) s2" by blast
  from f r w n p1 have g1: "returned (fetchMetrics exLib exGoodCycle) = Some None
   \<and> map_option wg (finalState (fetchMetrics exLib exGoodCycle)) = Some (wg exGoodCycle)
   \<and> map_option now (finalState (fetchMetrics exLib exGoodCycle)) = Some 5
   \<and> map_option (fetchTimePublished exLib (now exGoodCycle))
       (finalState (fetchMetrics exLib exGoodCycle)) = Some True"
    by (simp add: finalState_def)
  from f2 r2 w2 n2 p2 have g2: "returned ?c = Some None
   \<and> map_option wg (finalState ?c) = Some (wg exEofRead)
   \<and> map_option now (finalState ?c) = Some 13
   \<and> map_option (fetchTimePublished exLib (now exEofRead)) (finalState ?c) = Some True"
    by (simp add: finalState_def)
  from g1 g2 exEofCycle_reads_eof t5 show ?thesis by blast
qed

text \<open>Against C8 as stated: a cycle aborted by a read error stores no fetch time, and a
  cycle of 13 time units that was restarted at 5 stores 8.\<close>
theorem fetch_time_missing_or_shorter_than_cycle:
  "returned (fetchMetrics exLib exErrorCycle) = Some (Some (ReadFailed (IOError ''reset'')))
   \<and> map_option (gaugeValue ''munin_fetching_metric'' [''host1''])
       (finalState (fetchMetrics exLib exErrorCycle)) = Some None
   \<and> now exEofCycle = 0
   \<and> returned (fetchMetrics exLib exEofCycle) = Some None
   \<and> map_option now (finalState (fetchMetrics exLib exEofCycle)) = Some 13
   \<and> map_option (gaugeValue ''munin_fetching_metric'' [''host1''])
       (finalState (fetchMetrics exLib exEofCycle)) = Some (Some 8)"
  by (intro conjI; code_simp)

text \<open>
  C9. A counter whose label list is empty (registered, never updated by a fetch) is
  collected with the placeholder labels \<open>ThisMunin\<close>, \<open>Plugin\<close>, \<open>IsBroken\<close> and its
  stored value; the placeholder is stored in the counter.
\<close>
theorem collect_never_updated_counter:
  assumes "currentLabels c = []" and "length (variableLabels (counterDesc c)) = 3"
  shows "Collect c =
           (Some \<lparr>sampleDesc = counterDesc c, sampleType = CounterValue, sampleValue = cvalue c,
                  sampleLabels = [''ThisMunin'', ''Plugin'', ''IsBroken'']\<rparr>,
            c\<lparr>currentLabels := [''ThisMunin'', ''Plugin'', ''IsBroken'']\<rparr>)"
  using assms by (simp add: Collect_def MustNewConstMetric_def)

theorem collect_never_updated_counter_witness:
  "currentLabels (newMuninCounter ''cpu_ticks'' ''CPU usage: ticks''
                    [''hostname'', ''graphname'', ''muninlabel''] [(''type'', ''counter'')] :: int muninCounter) = []
   \<and> length (variableLabels (counterDesc (newMuninCounter ''cpu_ticks'' ''CPU usage: ticks''
                    [''hostname'', ''graphname'', ''muninlabel''] [(''type'', ''counter'')] :: int muninCounter))) = 3
   \<and> fst (Collect (newMuninCounter ''cpu_ticks'' ''CPU usage: ticks''
                    [''hostname'', ''graphname'', ''muninlabel''] [(''type'', ''counter'')] :: int muninCounter))
       = Some \<lparr>sampleDesc = \<lparr>fqName = ''cpu_ticks'', helpText = ''CPU usage: ticks'',
                               variableLabels = [''hostname'', ''graphname'', ''muninlabel''],
                               constLabels = [(''type'', ''counter'')]\<rparr>,
                sampleType = CounterValue, sampleValue = 0,
                sampleLabels = [''ThisMunin'', ''Plugin'', ''IsBroken'']\<rparr>"
  using collect_never_updated_counter
    [of "newMuninCounter ''cpu_ticks'' ''CPU usage: ticks''
           [''hostname'', ''graphname'', ''muninlabel''] [(''type'', ''counter'')] :: int muninCounter"]
  by (simp add: newMuninCounter_def)




end
